theory Spec2Isabelle
  imports Main "HOL-Library.Char_ord" "HOL-Library.List_Lexorder" "HOL-Library.AList"
    "HOL-Library.Multiset"
begin

section \<open>The API typings generator (scripts/apitypings/main.go)\<close>

text \<open>
  The generator walks the type-checked declarations of a Go package and prints TypeScript
  declarations for them. The development below embeds its functions one by one: the input
  (what \<^verbatim>\<open>go/types\<close> hands to the generator) is a tree of type descriptions, the
  generator's mutable fields (\<^verbatim>\<open>allowList\<close>, \<^verbatim>\<open>builtins\<close>, the allow lists of
  the external generators) are passed through every call, an error return is \<open>Inl\<close> of a
  sum, and a Go panic is the error \<open>Panic\<close>.
\<close>

subsection \<open>Strings\<close>

text \<open>Go strings are byte sequences; \<^verbatim>\<open>sort.Strings\<close> orders them bytewise, which is the
  lexicographic order on \<open>char list\<close>.\<close>

definition HasPrefix :: "string \<Rightarrow> string \<Rightarrow> bool" where
  "HasPrefix s prefix = (take (length prefix) s = prefix)"

definition HasSuffix :: "string \<Rightarrow> string \<Rightarrow> bool" where
  "HasSuffix s suffix =
     (length suffix \<le> length s \<and> drop (length s - length suffix) s = suffix)"

definition TrimPrefix :: "string \<Rightarrow> string \<Rightarrow> string" where
  "TrimPrefix s prefix = (if HasPrefix s prefix then drop (length prefix) s else s)"

fun Join :: "string list \<Rightarrow> string \<Rightarrow> string" where
  "Join [] sep = []"
| "Join [x] sep = x"
| "Join (x # y # ys) sep = x @ sep @ Join (y # ys) sep"

text \<open>\<^verbatim>\<open>strings.Split(s, ",")\<close> with a one-byte separator: always at least one piece.\<close>

fun Split :: "string \<Rightarrow> char \<Rightarrow> string list" where
  "Split [] sep = [[]]"
| "Split (c # cs) sep =
     (if c = sep then [] # Split cs sep
      else (case Split cs sep of [] \<Rightarrow> [[c]] | p # ps \<Rightarrow> (c # p) # ps))"

text \<open>\<^verbatim>\<open>strings.TrimSpace\<close>, on the ASCII white space (tab, line feed, vertical tab, form
  feed, carriage return, space).\<close>

definition isSpace :: "char \<Rightarrow> bool" where
  "isSpace c = (c \<in> set [CHR 0x09, CHR 0x0A, CHR 0x0B, CHR 0x0C, CHR 0x0D, CHR '' ''])"

definition TrimSpace :: "string \<Rightarrow> string" where
  "TrimSpace s = rev (dropWhile isSpace (rev (dropWhile isSpace s)))"

text \<open>\<^verbatim>\<open>strings.TrimRight(s, "\n")\<close>.\<close>

definition TrimRight_newline :: "string \<Rightarrow> string" where
  "TrimRight_newline s = rev (dropWhile (\<lambda>c. c = CHR 0x0A) (rev s))"

text \<open>The verb \<^verbatim>\<open>%q\<close> of \<^verbatim>\<open>fmt\<close> on a string of printable characters: double quotes
  around it, with a backslash before every double quote and backslash.\<close>

fun escape :: "string \<Rightarrow> string" where
  "escape [] = []"
| "escape (c # cs) =
     (if c = CHR 0x22 \<or> c = CHR 0x5C then CHR 0x5C # c # escape cs else c # escape cs)"

definition Quote :: "string \<Rightarrow> string" where
  "Quote s = [CHR 0x22] @ escape s @ [CHR 0x22]"

text \<open>\<^verbatim>\<open>cases.Title(language.English).String\<close> on a one-word ASCII name: the first letter
  in upper case, the others in lower case.\<close>

definition toUpper :: "char \<Rightarrow> char" where
  "toUpper c =
     (case map_of (zip ''abcdefghijklmnopqrstuvwxyz'' ''ABCDEFGHIJKLMNOPQRSTUVWXYZ'') c of
        None \<Rightarrow> c | Some u \<Rightarrow> u)"

definition toLower :: "char \<Rightarrow> char" where
  "toLower c =
     (case map_of (zip ''ABCDEFGHIJKLMNOPQRSTUVWXYZ'' ''abcdefghijklmnopqrstuvwxyz'') c of
        None \<Rightarrow> c | Some l \<Rightarrow> l)"

definition Title :: "string \<Rightarrow> string" where
  "Title s = (case s of [] \<Rightarrow> [] | c # cs \<Rightarrow> toUpper c # map toLower cs)"

text \<open>The position of the first occurrence of a substring: what is left of the string after it.\<close>

fun afterFirst :: "string \<Rightarrow> string \<Rightarrow> string option" where
  "afterFirst pat [] = (if pat = [] then Some [] else None)"
| "afterFirst pat (c # cs) =
     (if HasPrefix (c # cs) pat then Some (drop (length pat) (c # cs)) else afterFirst pat cs)"

subsection \<open>What go/types gives the generator\<close>

text \<open>The basic types of the universe scope (\<^verbatim>\<open>types.Typ\<close> and the two aliases \<^verbatim>\<open>byte\<close>
  and \<^verbatim>\<open>rune\<close>), with their kind, their \<^verbatim>\<open>BasicInfo\<close> flags and their name as
  \<^verbatim>\<open>go/types\<close> declares them. \<^verbatim>\<open>types.Byte\<close> is the constant \<^verbatim>\<open>types.Uint8\<close>; the kind \<^verbatim>\<open>types.Int\<close> is
  written \<open>IntKind\<close>.\<close>

datatype BasicKind =
    Invalid | Bool | IntKind | Int8 | Int16 | Int32 | Int64
  | Uint | Uint8 | Uint16 | Uint32 | Uint64 | Uintptr
  | Float32 | Float64 | Complex64 | Complex128 | String | UnsafePointer
  | UntypedBool | UntypedInt | UntypedRune | UntypedFloat | UntypedComplex
  | UntypedString | UntypedNil

abbreviation Byte :: BasicKind where "Byte \<equiv> Uint8"
abbreviation Rune :: BasicKind where "Rune \<equiv> Int32"

definition IsBoolean :: int where "IsBoolean = 1"
definition IsInteger :: int where "IsInteger = 2"
definition IsUnsigned :: int where "IsUnsigned = 4"
definition IsFloat :: int where "IsFloat = 8"
definition IsComplex :: int where "IsComplex = 16"
definition IsString :: int where "IsString = 32"
definition IsUntyped :: int where "IsUntyped = 64"
definition IsNumeric :: int where "IsNumeric = or IsInteger (or IsFloat IsComplex)"

datatype Basic = Typ BasicKind | AliasByte | AliasRune

fun Kind :: "Basic \<Rightarrow> BasicKind" where
  "Kind (Typ k) = k"
| "Kind AliasByte = Byte"
| "Kind AliasRune = Rune"

fun KindInfo :: "BasicKind \<Rightarrow> int" where
  "KindInfo Invalid = 0"
| "KindInfo Bool = IsBoolean"
| "KindInfo IntKind = IsInteger"
| "KindInfo Int8 = IsInteger"
| "KindInfo Int16 = IsInteger"
| "KindInfo Int32 = IsInteger"
| "KindInfo Int64 = IsInteger"
| "KindInfo Uint = or IsInteger IsUnsigned"
| "KindInfo Uint8 = or IsInteger IsUnsigned"
| "KindInfo Uint16 = or IsInteger IsUnsigned"
| "KindInfo Uint32 = or IsInteger IsUnsigned"
| "KindInfo Uint64 = or IsInteger IsUnsigned"
| "KindInfo Uintptr = or IsInteger IsUnsigned"
| "KindInfo Float32 = IsFloat"
| "KindInfo Float64 = IsFloat"
| "KindInfo Complex64 = IsComplex"
| "KindInfo Complex128 = IsComplex"
| "KindInfo String = IsString"
| "KindInfo UnsafePointer = 0"
| "KindInfo UntypedBool = or IsBoolean IsUntyped"
| "KindInfo UntypedInt = or IsInteger IsUntyped"
| "KindInfo UntypedRune = or IsInteger IsUntyped"
| "KindInfo UntypedFloat = or IsFloat IsUntyped"
| "KindInfo UntypedComplex = or IsComplex IsUntyped"
| "KindInfo UntypedString = or IsString IsUntyped"
| "KindInfo UntypedNil = IsUntyped"

definition Info :: "Basic \<Rightarrow> int" where
  "Info b = KindInfo (Kind b)"

fun KindName :: "BasicKind \<Rightarrow> string" where
  "KindName Invalid = ''invalid type''"
| "KindName Bool = ''bool''"
| "KindName IntKind = ''int''"
| "KindName Int8 = ''int8''"
| "KindName Int16 = ''int16''"
| "KindName Int32 = ''int32''"
| "KindName Int64 = ''int64''"
| "KindName Uint = ''uint''"
| "KindName Uint8 = ''uint8''"
| "KindName Uint16 = ''uint16''"
| "KindName Uint32 = ''uint32''"
| "KindName Uint64 = ''uint64''"
| "KindName Uintptr = ''uintptr''"
| "KindName Float32 = ''float32''"
| "KindName Float64 = ''float64''"
| "KindName Complex64 = ''complex64''"
| "KindName Complex128 = ''complex128''"
| "KindName String = ''string''"
| "KindName UnsafePointer = ''unsafe.Pointer''"
| "KindName UntypedBool = ''untyped bool''"
| "KindName UntypedInt = ''untyped int''"
| "KindName UntypedRune = ''untyped rune''"
| "KindName UntypedFloat = ''untyped float''"
| "KindName UntypedComplex = ''untyped complex''"
| "KindName UntypedString = ''untyped string''"
| "KindName UntypedNil = ''untyped nil''"

fun Name :: "Basic \<Rightarrow> string" where
  "Name (Typ k) = KindName k"
| "Name AliasByte = ''byte''"
| "Name AliasRune = ''rune''"

text \<open>A struct tag: the key/value pairs of a tag in the conventional format, or a malformed
  tag, of which only what \<^verbatim>\<open>reflect.StructTag.Get("json")\<close> finds in it matters.\<close>

datatype StructTag = Tag "(string \<times> string) list" | BadTag string

text \<open>\<^verbatim>\<open>reflect.StructTag(tag).Get(key)\<close>: the value of the first pair with the key, the empty
  string when there is none.\<close>

fun reflectGet :: "StructTag \<Rightarrow> string \<Rightarrow> string" where
  "reflectGet (Tag kvs) key = (case map_of kvs key of None \<Rightarrow> [] | Some v \<Rightarrow> v)"
| "reflectGet (BadTag j) key = (if key = ''json'' then j else [])"

text \<open>\<^verbatim>\<open>structtag.Parse\<close> and \<^verbatim>\<open>Tags.Get\<close>: a tag value \<^verbatim>\<open>name,opt1,opt2\<close> has the name
  before the first comma and the options after it.\<close>

record ParsedTag =
  tagName :: string
  tagOptions :: "string list"

definition parseValue :: "string \<Rightarrow> ParsedTag" where
  "parseValue v = (case Split v CHR '','' of
       [] \<Rightarrow> \<lparr>tagName = [], tagOptions = []\<rparr>
     | n # opts \<Rightarrow> \<lparr>tagName = n, tagOptions = opts\<rparr>)"

fun structtagParse :: "StructTag \<Rightarrow> (string \<times> string) list option" where
  "structtagParse (Tag kvs) = Some kvs"
| "structtagParse (BadTag j) = None"

definition tagsGet :: "(string \<times> string) list \<Rightarrow> string \<Rightarrow> ParsedTag option" where
  "tagsGet tags key = map_option parseValue (map_of tags key)"

text \<open>A field of a struct (\<^verbatim>\<open>*types.Var\<close> with \<^verbatim>\<open>IsField\<close>) and its tag; the type of the
  field is kept beside it in the struct.\<close>

record Field =
  fName :: string
  fEmbedded :: bool
  fExported :: bool
  fPkgName :: string
  fTag :: StructTag

text \<open>What the generator reads of a named type: the name and package name of its object, its
  \<^verbatim>\<open>String()\<close> (the qualified name with the type arguments), and the names of its type
  parameters in declaration order.\<close>

record NamedInfo =
  nName :: string
  nPkgName :: string
  nString :: string
  nTypeParams :: "string list"

text \<open>What the generator reads of a type parameter: the name of its object, the path of its
  package, the \<^verbatim>\<open>String()\<close> of its constraint, and whether its underlying type is an
  interface.\<close>

record TypeParamInfo =
  tpName :: string
  tpPkgPath :: string
  tpConstraint :: string
  tpUnderlyingInterface :: bool

text \<open>A type is a finite tree. A named type carries its underlying type and its type
  arguments; a reference to a declaration of a scope is a \<open>Named\<close> node that the generator
  resolves by name, without looking at what is below it, so a declaration that refers to itself
  is a finite tree as well. An interface carries its \<^verbatim>\<open>Empty()\<close> and its embedded types.
  \<open>Other\<close> stands for the kinds the generator has no case for (channels, tuples),
  \<open>Signature\<close> for function types.\<close>

datatype gotype =
    Basic Basic
  | Struct "(Field \<times> gotype) list"
  | Map gotype gotype
  | Slice gotype
  | Array gotype
  | Named NamedInfo gotype "gotype list"
  | Pointer gotype
  | Interface bool "gotype list"
  | TypeParam TypeParamInfo
  | Union "gotype list"
  | Signature
  | Other string

text \<open>An object of a scope: its kind (the value of a constant is kept as
  \<^verbatim>\<open>Val().String()\<close> prints it), its name, the name of its package, the base name of the
  file that declares it, and its type (\<open>None\<close> for a nil type).\<close>

datatype ObjectKind = TypeName | Var | Const string | Func | OtherObject

record Object =
  oKind :: ObjectKind
  oName :: string
  oPkgName :: string
  oFile :: string
  oType :: "gotype option"

text \<open>A loaded package: its name, its scope, and the text of every comment of its files.\<close>

record Package =
  pkgName :: string
  pkgScope :: "(string \<times> Object) list"
  pkgComments :: "string list"

definition Lookup :: "Package \<Rightarrow> string \<Rightarrow> Object option" where
  "Lookup p n = map_of (pkgScope p) n"

text \<open>\<^verbatim>\<open>Scope().Names()\<close>: the names of the scope, sorted.\<close>

definition Names :: "Package \<Rightarrow> string list" where
  "Names p = sort (remdups (map fst (pkgScope p)))"

subsection \<open>The generator and its results\<close>

text \<open>A Go map is an association list: \<open>AList.update\<close> writes an entry, \<open>map_of\<close> reads
  one, and ranging over the map visits every key once with the value that \<open>map_of\<close> reads
  (\<open>AList.clearjunk\<close> drops the entries that an earlier one with the same key hides; a list
  built by \<open>AList.update\<close> has none). The order of the visits is not fixed in Go; here it is
  the order of the list. A map that may be nil is an option: reading and ranging over the nil
  map find nothing, writing to it panics.\<close>

definition rangeOf :: "(string \<times> 'v) list \<Rightarrow> (string \<times> 'v) list" where
  "rangeOf m = AList.clearjunk m"

type_synonym gomap = "(string \<times> string) list option"

fun entries :: "gomap \<Rightarrow> (string \<times> string) list" where
  "entries None = []"
| "entries (Some kvs) = rangeOf kvs"

record TypescriptType =
  GenericTypes :: gomap
  GenericValue :: string
  ValueType :: string
  AboveTypeLine :: string
  Optional :: bool

text \<open>The composite literal \<^verbatim>\<open>TypescriptType{ValueType: v}\<close>: every other field is zero.\<close>

definition valueOnly :: "string \<Rightarrow> TypescriptType" where
  "valueOnly v =
     \<lparr>GenericTypes = None, GenericValue = [], ValueType = v, AboveTypeLine = [], Optional = False\<rparr>"

text \<open>An error made by \<^verbatim>\<open>xerrors.Errorf(format, args...)\<close> (or \<^verbatim>\<open>xerrors.New\<close>): the format,
  its arguments (a string, or a type printed by its \<^verbatim>\<open>String()\<close>), and the error that
  \<^verbatim>\<open>%w\<close> wraps, if any. A panic is an error of its own.\<close>

datatype arg = S string | T gotype

datatype error = Errorf string "arg list" "error option" | Panic string

text \<open>Of an external generator, \<^verbatim>\<open>lookupNamedReference\<close> and \<^verbatim>\<open>typescriptType\<close> touch
  its package and its allow list. No generator is among its own externals.\<close>

record External =
  extPkg :: Package
  extAllowList :: "string list"

record Generator =
  pkg :: Package
  onlyOptIn :: bool
  allowList :: "string list"
  externals :: "External list"
  builtins :: "(string \<times> string) list"

definition indent :: string where
  "indent = ''  ''"

definition indentedComment :: "string \<Rightarrow> string" where
  "indentedComment comment = indent @ ''// '' @ comment"

fun isBuiltIn :: "string \<Rightarrow> bool \<times> string" where
  "isBuiltIn name =
     (if name = ''comparable''
        then (True, ''export type comparable = boolean | number | string | any'')
      else if name = ''any'' then (True, [])
      else (False, []))"

text \<open>\<^verbatim>\<open>objName\<close> for the object of a named type and for an object of a scope.\<close>

definition objNameOf :: "string \<Rightarrow> string \<Rightarrow> string" where
  "objNameOf pname name =
     (if pname \<noteq> ''codersdk'' \<and> pname \<noteq> ''healthsdk'' then Title pname @ name else name)"

definition objName :: "Object \<Rightarrow> string" where
  "objName obj = objNameOf (oPkgName obj) (oName obj)"

fun lookupExternal :: "External list \<Rightarrow> nat \<Rightarrow> NamedInfo \<Rightarrow> (Object \<times> nat) option" where
  "lookupExternal [] i n = None"
| "lookupExternal (ext # exts) i n =
     (case Lookup (extPkg ext) (nName n) of
        Some obj \<Rightarrow>
          if pkgName (extPkg ext) = nPkgName n then Some (obj, i)
          else lookupExternal exts (Suc i) n
      | None \<Rightarrow> lookupExternal exts (Suc i) n)"

text \<open>The result is the object found and the generator that owns it: \<open>None\<close> for the
  generator itself (\<^verbatim>\<open>local\<close> is true), \<open>Some i\<close> for its \<open>i\<close>-th external.\<close>

definition lookupNamedReference :: "Generator \<Rightarrow> NamedInfo \<Rightarrow> (Object \<times> nat option) option" where
  "lookupNamedReference g n =
     (case Lookup (pkg g) (nName n) of
        Some obj \<Rightarrow>
          if pkgName (pkg g) = nPkgName n then Some (obj, None)
          else map_option (\<lambda>(obj, i). (obj, Some i)) (lookupExternal (externals g) 0 n)
      | None \<Rightarrow> map_option (\<lambda>(obj, i). (obj, Some i)) (lookupExternal (externals g) 0 n))"

text \<open>The named types that are mapped by hand, by their \<^verbatim>\<open>String()\<close>.\<close>

definition wellKnown :: "string \<Rightarrow> TypescriptType option" where
  "wellKnown s =
    (if s = ''github.com/coder/serpent.Regexp'' then Some (valueOnly ''string'')
     else if s = ''github.com/coder/serpent.HostPort'' then Some (valueOnly ''string'')
     else if s = ''github.com/coder/serpent.StringArray'' then Some (valueOnly ''string[]'')
     else if s = ''github.com/coder/serpent.String'' then Some (valueOnly ''string'')
     else if s = ''github.com/coder/serpent.YAMLConfigPath'' then Some (valueOnly ''string'')
     else if s = ''github.com/coder/serpent.Strings'' then Some (valueOnly ''string[]'')
     else if s = ''github.com/coder/serpent.Int64'' then Some (valueOnly ''number'')
     else if s = ''github.com/coder/serpent.Bool'' then Some (valueOnly ''boolean'')
     else if s = ''github.com/coder/serpent.Duration'' then Some (valueOnly ''number'')
     else if s = ''net/url.URL'' then Some (valueOnly ''string'')
     else if s = ''time.Time'' then Some (valueOnly ''string'')
     else if s = ''time.Duration'' then Some (valueOnly ''number'')
     else if s = ''database/sql.NullTime'' then Some ((valueOnly ''string'')\<lparr>Optional := True\<rparr>)
     else if s = ''github.com/coder/coder/v2/codersdk.NullTime''
       then Some ((valueOnly ''string'')\<lparr>Optional := True\<rparr>)
     else if s = ''github.com/google/uuid.NullUUID''
       then Some ((valueOnly ''string'')\<lparr>Optional := True\<rparr>)
     else if s = ''github.com/google/uuid.UUID'' then Some (valueOnly ''string'')
     else if s = ''encoding/json.RawMessage'' then Some (valueOnly ''Record<string, string>'')
     else if s = ''github.com/coder/serpent.URL'' then Some (valueOnly ''string'')
     else if s = ''github.com/coder/coder/v2/codersdk.RegionsResponse[github.com/coder/coder/v2/codersdk.WorkspaceProxy]''
       then Some (valueOnly ''RegionsResponse<WorkspaceProxy>'')
     else if s = ''github.com/coder/coder/v2/coderd/healthcheck/health.Message''
       then Some (valueOnly ''HealthMessage'')
     else if s = ''github.com/coder/coder/v2/coderd/healthcheck/health.Severity''
       then Some (valueOnly ''HealthSeverity'')
     else if s = ''github.com/coder/coder/v2/healthsdk.HealthSection''
       then Some (valueOnly ''HealthSection'')
     else if s = ''github.com/coder/coder/v2/codersdk.ProvisionerDaemon''
       then Some (valueOnly ''ProvisionerDaemon'')
     else None)"

text \<open>The regular expression \<^verbatim>\<open>github\.com/coder/serpent.Struct\[.*\]\<close>, matched anywhere in
  the string: after the path comes any one character but a line feed, then \<^verbatim>\<open>Struct[\<close>, then a
  closing bracket on the same line.\<close>

definition matchHere :: "string \<Rightarrow> bool" where
  "matchHere t =
     (HasPrefix t ''github.com/coder/serpent'' \<and>
      (case drop (length ''github.com/coder/serpent'') t of
         [] \<Rightarrow> False
       | c # r \<Rightarrow>
           c \<noteq> CHR 0x0A \<and> HasPrefix r ''Struct['' \<and>
           CHR '']'' \<in> set (takeWhile (\<lambda>c. c \<noteq> CHR 0x0A) (drop (length ''Struct['') r))))"

fun MatchString :: "string \<Rightarrow> bool" where
  "MatchString [] = matchHere []"
| "MatchString (c # cs) = (matchHere (c # cs) \<or> MatchString cs)"

text \<open>\<^verbatim>\<open>arr.Elem().String() == "byte"\<close>: \<^verbatim>\<open>go/types\<close> prints a basic type by its name, a
  named type by its qualified name and a type parameter by its name; what it prints for any other
  type starts with a bracket, a star or a keyword and is never \<^verbatim>\<open>byte\<close>.\<close>

fun elemIsByte :: "gotype \<Rightarrow> bool" where
  "elemIsByte (Basic b) = (Name b = ''byte'')"
| "elemIsByte (Named n u as) = (nString n = ''byte'')"
| "elemIsByte (TypeParam p) = (tpName p = ''byte'')"
| "elemIsByte _ = False"

text \<open>The two writes to allow lists when a named reference resolves: the generator's own
  list gets the name if the generator is opt-in and does not hold it yet; the list of the
  external generator that owns the object gets it in any case.\<close>

definition allowSelf :: "Generator \<Rightarrow> string \<Rightarrow> Generator" where
  "allowSelf g name =
     (if onlyOptIn g \<and> name \<notin> set (allowList g)
      then g\<lparr>allowList := allowList g @ [name]\<rparr> else g)"

definition allowExternal :: "Generator \<Rightarrow> nat option \<Rightarrow> string \<Rightarrow> Generator" where
  "allowExternal g objGen name =
     (case objGen of
        None \<Rightarrow> g
      | Some i \<Rightarrow>
          g\<lparr>externals := (externals g)
               [i := (externals g ! i)\<lparr>extAllowList := extAllowList (externals g ! i) @ [name]\<rparr>]\<rparr>)"

text \<open>The loop that merges the bindings of a map's value type into those of its key type.\<close>

definition mergeGens :: "gomap \<Rightarrow> gomap \<Rightarrow> error + gomap" where
  "mergeGens keyGens valueGens =
     (case entries valueGens of
        [] \<Rightarrow> Inr keyGens
      | kv # kvs \<Rightarrow>
          (case keyGens of
             None \<Rightarrow> Inl (Panic ''assignment to entry in nil map'')
           | Some m \<Rightarrow> Inr (Some (fold (\<lambda>(k, v). AList.update k v) (kv # kvs) m))))"

definition mapType :: "TypescriptType \<Rightarrow> TypescriptType \<Rightarrow> error + TypescriptType" where
  "mapType keyType valueType =
     (let aboveTypeLine = AboveTypeLine keyType;
          aboveTypeLine =
            (if aboveTypeLine \<noteq> [] \<and> AboveTypeLine valueType \<noteq> []
             then aboveTypeLine @ [CHR 0x0A] else aboveTypeLine);
          aboveTypeLine = aboveTypeLine @ AboveTypeLine valueType
      in case mergeGens (GenericTypes keyType) (GenericTypes valueType) of
           Inl e \<Rightarrow> Inl e
         | Inr gens \<Rightarrow>
             Inr ((valueOnly (''Record<'' @ ValueType keyType @ '', '' @ ValueType valueType @ ''>''))
                    \<lparr>AboveTypeLine := aboveTypeLine, GenericTypes := gens\<rparr>))"

definition basicType :: "Basic \<Rightarrow> TypescriptType" where
  "basicType bs =
     (if and (Info bs) IsNumeric > 0 then valueOnly ''number''
      else if and (Info bs) IsBoolean > 0 then valueOnly ''boolean''
      else if Kind bs = Byte
        then (valueOnly ''number'')\<lparr>AboveTypeLine := indentedComment ''This is a byte in golang''\<rparr>
      else valueOnly (Name bs))"

definition anonymousStruct :: TypescriptType where
  "anonymousStruct =
     (valueOnly ''any'')\<lparr>AboveTypeLine :=
        indentedComment ''Embedded anonymous struct, please fix by naming it'' @ [CHR 0x0A] @
        indentedComment ''eslint-disable-next-line @typescript-eslint/no-explicit-any -- Anonymously embedded struct''\<rparr>"

definition arrayOf :: "TypescriptType \<Rightarrow> TypescriptType" where
  "arrayOf underlying =
     \<lparr>GenericTypes = GenericTypes underlying,
      GenericValue = (if GenericValue underlying \<noteq> [] then GenericValue underlying @ ''[]'' else []),
      ValueType = ValueType underlying @ ''[]'',
      AboveTypeLine = AboveTypeLine underlying,
      Optional = False\<rparr>"

definition unknownStruct :: "NamedInfo \<Rightarrow> TypescriptType" where
  "unknownStruct n =
     (valueOnly ''any'')\<lparr>AboveTypeLine :=
        indentedComment (''Named type '' @ Quote (nString n) @ '' unknown, using '' @ [CHR 0x22] @ ''any'' @ [CHR 0x22]) @ [CHR 0x0A] @
        indentedComment ''eslint-disable-next-line @typescript-eslint/no-explicit-any -- External type''\<rparr>"

definition likelyEnum :: "NamedInfo \<Rightarrow> TypescriptType \<Rightarrow> TypescriptType" where
  "likelyEnum n ts =
     (if AboveTypeLine ts = []
      then ts\<lparr>AboveTypeLine := indentedComment
             (''This is likely an enum in an external package ('' @ Quote (nString n) @ '')'')\<rparr>
      else ts)"

definition interfaceType :: "bool \<Rightarrow> TypescriptType" where
  "interfaceType isEmpty =
     (if isEmpty
      then (valueOnly ''any'')\<lparr>AboveTypeLine :=
        indentedComment ''Empty interface{} type, cannot resolve the type.'' @ [CHR 0x0A] @
        indentedComment ''eslint-disable-next-line @typescript-eslint/no-explicit-any -- interface{}''\<rparr>
      else (valueOnly ''any'')\<lparr>AboveTypeLine :=
        indentedComment ''eslint-disable-next-line @typescript-eslint/no-explicit-any -- Golang interface, unable to resolve type.''\<rparr>)"

definition typeParam :: "Generator \<Rightarrow> TypeParamInfo \<Rightarrow> (error + TypescriptType) \<times> Generator" where
  "typeParam g ty =
     (if \<not> tpUnderlyingInterface ty
      then (Inl (Errorf ''type param must be an interface'' [] None), g)
      else
        let name = TrimPrefix (tpConstraint ty) (tpPkgPath ty @ ''.'');
            bound = \<lparr>GenericTypes = Some [(tpName ty, name)], GenericValue = tpName ty,
                     ValueType = name, AboveTypeLine = [], Optional = False\<rparr>
        in case Lookup (pkg g) name of
             None \<Rightarrow>
               (case isBuiltIn name of
                  (False, builtinString) \<Rightarrow>
                    (Inr \<lparr>GenericTypes = Some [(tpName ty, ''any'')], GenericValue = tpName ty,
                          ValueType = ''any'',
                          AboveTypeLine = ''// '' @ Quote name @ '' is an external type, so we use any'',
                          Optional = False\<rparr>, g)
                | (True, builtinString) \<Rightarrow>
                    (Inr bound, g\<lparr>builtins := AList.update name builtinString (builtins g)\<rparr>))
           | Some referenced \<Rightarrow> (Inr bound, g))"

text \<open>The recursive mapper. The second function is the loop over the type arguments of a
  resolved named type; it carries \<^verbatim>\<open>genericConstraints\<close>, \<^verbatim>\<open>genericNames\<close> and
  \<^verbatim>\<open>genericTypes\<close>. The types that no case of the switch takes fall to the error after
  it.\<close>

function (sequential)
  typescriptType :: "Generator \<Rightarrow> gotype \<Rightarrow> (error + TypescriptType) \<times> Generator"
  and typeArgs :: "Generator \<Rightarrow> string \<Rightarrow> gotype list
      \<Rightarrow> string list \<times> string list \<times> (string \<times> string) list
      \<Rightarrow> (error + string list \<times> string list \<times> (string \<times> string) list) \<times> Generator"
where
  "typescriptType g (Basic bs) = (Inr (basicType bs), g)"
| "typescriptType g (Struct fs) = (Inr anonymousStruct, g)"
| "typescriptType g (Map key elem) =
     (case typescriptType g key of
        (Inl err, g1) \<Rightarrow> (Inl (Errorf ''map key: %w'' [] (Some err)), g1)
      | (Inr keyType, g1) \<Rightarrow>
          (case typescriptType g1 elem of
             (Inl err, g2) \<Rightarrow> (Inl (Errorf ''map key: %w'' [] (Some err)), g2)
           | (Inr valueType, g2) \<Rightarrow> (mapType keyType valueType, g2)))"
| "typescriptType g (Slice elem) =
     (if elemIsByte elem then (Inr (valueOnly ''string''), g)
      else case typescriptType g elem of
             (Inl err, g1) \<Rightarrow> (Inl (Errorf ''array: %w'' [] (Some err)), g1)
           | (Inr elemType, g1) \<Rightarrow> (Inr (arrayOf elemType), g1))"
| "typescriptType g (Array elem) =
     (if elemIsByte elem then (Inr (valueOnly ''string''), g)
      else case typescriptType g elem of
             (Inl err, g1) \<Rightarrow> (Inl (Errorf ''array: %w'' [] (Some err)), g1)
           | (Inr elemType, g1) \<Rightarrow> (Inr (arrayOf elemType), g1))"
| "typescriptType g (Named n underlying targs) =
     (case wellKnown (nString n) of
        Some t \<Rightarrow> (Inr t, g)
      | None \<Rightarrow>
         (case (if MatchString (nString n)
                then (case underlying of Struct fs \<Rightarrow> Some fs | _ \<Rightarrow> None) else None) of
            Some [] \<Rightarrow> (Inl (Panic ''index out of range''), g)
          | Some (ft # fts) \<Rightarrow> typescriptType g (snd ft)
          | None \<Rightarrow>
             (case lookupNamedReference g n of
                Some (obj, objGen) \<Rightarrow>
                  (let g1 = allowExternal (allowSelf g (nName n)) objGen (nName n);
                       oname = objNameOf (nPkgName n) (nName n)
                   in if targs \<noteq> []
                      then (case typeArgs g1 oname targs ([], [], []) of
                              (Inl err, g2) \<Rightarrow> (Inl err, g2)
                            | (Inr (genericConstraints, genericNames, genericTypes), g2) \<Rightarrow>
                                (Inr \<lparr>GenericTypes = Some genericTypes,
                                      GenericValue = oname @ ''<'' @ Join genericNames '', '' @ ''>'',
                                      ValueType = oname @ ''<'' @ Join genericConstraints '', '' @ ''>'',
                                      AboveTypeLine = [], Optional = False\<rparr>, g2))
                      else (Inr \<lparr>GenericTypes = Some [], GenericValue = [], ValueType = oname,
                                 AboveTypeLine = [], Optional = False\<rparr>, g1))
              | None \<Rightarrow>
                  (case underlying of
                     Struct fs \<Rightarrow> (Inr (unknownStruct n), g)
                   | _ \<Rightarrow>
                      (case typescriptType g underlying of
                         (Inl err, g1) \<Rightarrow> (Inl (Errorf ''named underlying: %w'' [] (Some err)), g1)
                       | (Inr ts, g1) \<Rightarrow> (Inr (likelyEnum n ts), g1))))))"
| "typescriptType g (Pointer elem) =
     (case typescriptType g elem of
        (Inl err, g1) \<Rightarrow> (Inl (Errorf ''pointer: %w'' [] (Some err)), g1)
      | (Inr resp, g1) \<Rightarrow> (Inr (resp\<lparr>Optional := True\<rparr>), g1))"
| "typescriptType g (Interface isEmpty embeddeds) = (Inr (interfaceType isEmpty), g)"
| "typescriptType g (TypeParam ty) = typeParam g ty"
| "typescriptType g (Union terms) = (Inl (Errorf ''unknown type: %s'' [T (Union terms)] None), g)"
| "typescriptType g Signature = (Inl (Errorf ''unknown type: %s'' [T Signature] None), g)"
| "typescriptType g (Other s) = (Inl (Errorf ''unknown type: %s'' [T (Other s)] None), g)"
| "typeArgs g oname [] acc = (Inr acc, g)"
| "typeArgs g oname (a # as) (genericConstraints, genericNames, genericTypes) =
     (case typescriptType g a of
        (Inl err, g1) \<Rightarrow> (Inl (Errorf ''generic field %q<%q>: %w'' [S oname, T a] (Some err)), g1)
      | (Inr genType, g1) \<Rightarrow>
          typeArgs g1 oname as
            (genericConstraints @ [ValueType genType],
             (case a of
                TypeParam param \<Rightarrow> genericNames @ [tpName param]
              | _ \<Rightarrow> genericNames @ [ValueType genType]),
             (case a of
                TypeParam param \<Rightarrow> AList.update (tpName param) (ValueType genType) genericTypes
              | _ \<Rightarrow> genericTypes)))"
  by pat_completeness auto

termination
proof (relation "measure (\<lambda>x. case x of
                    Inl (g, ty) \<Rightarrow> size ty
                  | Inr (g, oname, tys, acc) \<Rightarrow> size_list size tys)")
qed (auto split: if_splits gotype.splits)

subsection \<open>Unions and structs\<close>

definition posLine :: "Object \<Rightarrow> string" where
  \<comment> \<open>\<^verbatim>\<open>path.Join\<close> of the package name and the base name of the declaring file\<close>
  "posLine obj = ''// From '' @ oPkgName obj @ ''/'' @ oFile obj @ [CHR 0x0A]"

text \<open>Modelled from the spec: \<^verbatim>\<open>slice.Unique\<close> (package \<^verbatim>\<open>coderd/util/slice\<close>) is not among
  the sources; the spec has the union builder deduplicate the value-type strings. The first
  occurrence of every element is kept, in order.\<close>

fun uniqueFrom :: "'a list \<Rightarrow> 'a list \<Rightarrow> 'a list" where
  "uniqueFrom seen [] = []"
| "uniqueFrom seen (x # xs) =
     (if x \<in> set seen then uniqueFrom seen xs else x # uniqueFrom (x # seen) xs)"

definition Unique :: "'a list \<Rightarrow> 'a list" where
  "Unique xs = uniqueFrom [] xs"

text \<open>The loop of \<^verbatim>\<open>buildUnion\<close> over the terms of the union \<open>st\<close>.\<close>

fun unionTerms :: "Generator \<Rightarrow> Object \<Rightarrow> gotype list \<Rightarrow> gotype list \<Rightarrow> string list \<times> bool
    \<Rightarrow> (error + string list \<times> bool) \<times> Generator" where
  "unionTerms g obj st [] acc = (Inr acc, g)"
| "unionTerms g obj st (term # terms) (allTypes, optional) =
     (case typescriptType g term of
        (Inl err, g1) \<Rightarrow>
          (Inl (Errorf ''union %q for %q failed to get type: %w'' [T (Union st), S (oName obj)]
                  (Some err)), g1)
      | (Inr scriptType, g1) \<Rightarrow>
          unionTerms g1 obj st terms
            (allTypes @ [ValueType scriptType], optional \<or> Optional scriptType))"

definition buildUnion :: "Generator \<Rightarrow> Object \<Rightarrow> gotype list \<Rightarrow> (error + string) \<times> Generator" where
  "buildUnion g obj st =
     (case unionTerms g obj st st ([], False) of
        (Inl err, g1) \<Rightarrow> (Inl err, g1)
      | (Inr (allTypes, optional), g1) \<Rightarrow>
          (let allTypes = (if optional then allTypes @ [''null''] else allTypes);
               allTypes = Unique allTypes
           in (Inr (posLine obj @ ''export type '' @ objName obj @ '' = '' @
                    Join allTypes '' | '' @ [CHR 0x0A]), g1)))"

record structTemplateState =
  PosLine :: string
  Name_s :: string
  Fields :: "string list"
  Generics_s :: "string list"
  Extends :: string
  AboveLine :: string

text \<open>Executing \<^verbatim>\<open>structTemplate\<close> on a state (the fields \<^verbatim>\<open>Name\<close> and \<^verbatim>\<open>Generics\<close> of
  the state are \<open>Name_s\<close> and \<open>Generics_s\<close> here).\<close>

definition structTemplate :: "structTemplateState \<Rightarrow> string" where
  "structTemplate state =
     PosLine state @
     (if AboveLine state \<noteq> [] then AboveLine state @ [CHR 0x0A] else []) @
     ''export interface '' @ Name_s state @
     (if Generics_s state \<noteq> [] then ''<'' @ Join (Generics_s state) '', '' @ ''>'' else []) @
     (if Extends state \<noteq> [] then '' extends '' @ Extends state else []) @
     '' {'' @ [CHR 0x0A] @ Join (Fields state) [CHR 0x0A] @ [CHR 0x0A] @ ''}'' @ [CHR 0x0A]"

text \<open>The first loop of \<^verbatim>\<open>buildStruct\<close> marks field \<open>i\<close> in \<^verbatim>\<open>extendedFields\<close> exactly
  when the field passes this test.\<close>

definition isExtended :: "Field \<Rightarrow> bool" where
  "isExtended field =
     (fEmbedded field \<and> reflectGet (fTag field) ''json'' = [] \<and> fPkgName field = ''codersdk'')"

definition jsonNameOf :: "Field \<Rightarrow> ParsedTag option \<Rightarrow> string" where
  "jsonNameOf field jsonTag =
     (let jsonName = (case jsonTag of None \<Rightarrow> [] | Some t \<Rightarrow> tagName t)
      in if jsonName = [] then fName field else jsonName)"

definition firstOptionIs :: "ParsedTag option \<Rightarrow> string \<Rightarrow> bool" where
  "firstOptionIs tag opt =
     (case tag of
        None \<Rightarrow> False
      | Some t \<Rightarrow> (case tagOptions t of [] \<Rightarrow> False | x # xs \<Rightarrow> x = opt))"

definition nameIsDash :: "ParsedTag option \<Rightarrow> bool" where
  "nameIsDash tag = (case tag of None \<Rightarrow> False | Some t \<Rightarrow> tagName t = ''-'')"

text \<open>The effect of a \<^verbatim>\<open>typescript\<close> tag whose name is not \<^verbatim>\<open>-\<close> on the inferred type.\<close>

definition applyTypescriptTag :: "ParsedTag option \<Rightarrow> TypescriptType \<Rightarrow> TypescriptType" where
  "applyTypescriptTag typescriptTag tsType =
     (case typescriptTag of
        None \<Rightarrow> tsType
      | Some t \<Rightarrow>
          (let tsType = (if tagName t \<noteq> [] then valueOnly (tagName t) else tsType)
           in if firstOptionIs typescriptTag ''notnull'' then tsType\<lparr>Optional := False\<rparr>
              else tsType))"

text \<open>Gathering the bindings of a field into \<^verbatim>\<open>genericsUsed\<close>: a name that is there
  already is not written again.\<close>

definition gatherGenerics :: "(string \<times> string) list \<Rightarrow> TypescriptType \<Rightarrow> (string \<times> string) list" where
  "gatherGenerics genericsUsed tsType =
     (if GenericValue tsType \<noteq> []
      then fold (\<lambda>(name, constraint) used.
                   if map_of used name \<noteq> None then used else AList.update name constraint used)
             (entries (GenericTypes tsType)) genericsUsed
      else genericsUsed)"

definition fieldLines :: "string \<Rightarrow> bool \<Rightarrow> TypescriptType \<Rightarrow> string list" where
  "fieldLines jsonName jsonOptional tsType =
     (let optional = (if jsonOptional \<or> Optional tsType then ''?'' else []);
          valueType = (if GenericValue tsType \<noteq> [] then GenericValue tsType else ValueType tsType)
      in (if AboveTypeLine tsType \<noteq> [] then [AboveTypeLine tsType] else []) @
         [indent @ ''readonly '' @ jsonName @ optional @ '': '' @ valueType])"

text \<open>The second loop of \<^verbatim>\<open>buildStruct\<close>, carrying \<^verbatim>\<open>state.Fields\<close> and
  \<^verbatim>\<open>genericsUsed\<close>. The panic keeps the constant part of its message.\<close>

fun structFields :: "Generator \<Rightarrow> (Field \<times> gotype) list \<Rightarrow> string list \<times> (string \<times> string) list
    \<Rightarrow> (error + string list \<times> (string \<times> string) list) \<times> Generator" where
  "structFields g [] acc = (Inr acc, g)"
| "structFields g ((field, ty) # rest) (flds, genericsUsed) =
     (if isExtended field then structFields g rest (flds, genericsUsed)
      else case structtagParse (fTag field) of
        None \<Rightarrow> (Inl (Panic ''invalid struct tags on type ''), g)
      | Some tags \<Rightarrow>
          if \<not> fExported field then structFields g rest (flds, genericsUsed)
          else if nameIsDash (tagsGet tags ''json'') then structFields g rest (flds, genericsUsed)
          else
            (case typescriptType g ty of
               (Inl err, g1) \<Rightarrow> (Inl (Errorf ''typescript type: %w'' [] (Some err)), g1)
             | (Inr tsType, g1) \<Rightarrow>
                 if nameIsDash (tagsGet tags ''typescript'')
                 then structFields g1 rest (flds, genericsUsed)
                 else
                   (let tsType = applyTypescriptTag (tagsGet tags ''typescript'') tsType
                    in structFields g1 rest
                         (flds @ fieldLines (jsonNameOf field (tagsGet tags ''json''))
                                     (firstOptionIs (tagsGet tags ''json'') ''omitempty'') tsType,
                          gatherGenerics genericsUsed tsType))))"

text \<open>The loop over the declared type parameters, carrying \<^verbatim>\<open>state.Generics\<close>.\<close>

fun genericParams :: "Object \<Rightarrow> (string \<times> string) list \<Rightarrow> string list \<Rightarrow> string list
    \<Rightarrow> error + string list" where
  "genericParams obj genericsUsed [] generics = Inr generics"
| "genericParams obj genericsUsed (name # params) generics =
     (case map_of genericsUsed name of
        None \<Rightarrow>
          Inl (Errorf ''generic param %q missing on %q, fix your data structure''
                 [S name, S (oName obj)] None)
      | Some constraint \<Rightarrow>
          genericParams obj genericsUsed params (generics @ [name @ '' extends '' @ constraint]))"

text \<open>\<^verbatim>\<open>buildStruct\<close> up to the state it hands to the template, and \<^verbatim>\<open>buildStruct\<close>.\<close>

definition buildStructState :: "Generator \<Rightarrow> Object \<Rightarrow> (Field \<times> gotype) list
    \<Rightarrow> (error + structTemplateState) \<times> Generator" where
  "buildStructState g obj st =
     (let extends = map fName (filter isExtended (map fst st))
      in case structFields g st ([], []) of
           (Inl err, g1) \<Rightarrow> (Inl err, g1)
         | (Inr (flds, genericsUsed), g1) \<Rightarrow>
             if oKind obj \<noteq> TypeName
             then (Inl (Errorf ''generic param ordering undefined on %q'' [S (oName obj)] None), g1)
             else
               (case oType obj of
                  None \<Rightarrow> (Inl (Panic ''nil pointer dereference''), g1)
                | Some (Named namedType underlying targs) \<Rightarrow>
                    (case genericParams obj genericsUsed (nTypeParams namedType) [] of
                       Inl err \<Rightarrow> (Inl err, g1)
                     | Inr generics \<Rightarrow>
                         (Inr \<lparr>PosLine = posLine obj, Name_s = objName obj, Fields = flds,
                               Generics_s = generics,
                               Extends = (if extends \<noteq> [] then Join extends '', '' else []),
                               AboveLine = []\<rparr>, g1))
                | Some ty \<Rightarrow>
                    (Inl (Errorf ''generic param %q unexpected type %q'' [S (oName obj), T ty] None),
                     g1)))"

definition buildStruct :: "Generator \<Rightarrow> Object \<Rightarrow> (Field \<times> gotype) list
    \<Rightarrow> (error + string) \<times> Generator" where
  "buildStruct g obj st =
     (case buildStructState g obj st of
        (Inl err, g1) \<Rightarrow> (Inl err, g1)
      | (Inr state, g1) \<Rightarrow> (Inr (structTemplate state), g1))"

subsection \<open>One declaration, all declarations\<close>

text \<open>\<^verbatim>\<open>EnumConsts\<close> keeps, of every constant, what \<^verbatim>\<open>Val().String()\<close> prints for it;
  the two sets of names are lists without repetition.\<close>

record Maps =
  Structs :: "(string \<times> string) list"
  Generics :: "(string \<times> string) list"
  Enums :: "(string \<times> Object) list"
  EnumConsts :: "(string \<times> string list) list"
  IgnoredTypes :: "string list"
  AllowedTypes :: "string list"

text \<open>Reading \<^verbatim>\<open>m.EnumConsts[name]\<close>: the nil slice when the name has no entry.\<close>

definition enumConstsOf :: "Maps \<Rightarrow> string \<Rightarrow> string list" where
  "enumConstsOf m name = (case map_of (EnumConsts m) name of None \<Rightarrow> [] | Some consts \<Rightarrow> consts)"

text \<open>The case for declared maps, arrays and slices.\<close>

definition containerAlias :: "Generator \<Rightarrow> Maps \<Rightarrow> Object \<Rightarrow> gotype \<Rightarrow> (error + Maps) \<times> Generator" where
  "containerAlias g m obj underNamed =
     (case typescriptType g underNamed of
        (Inl err, g1) \<Rightarrow> (Inl (Errorf ''(map) generate %q: %w'' [S (objName obj)] (Some err)), g1)
      | (Inr ts, g1) \<Rightarrow>
          (Inr (m\<lparr>Structs := AList.update (objName obj)
                   (posLine obj @
                    (if AboveTypeLine ts \<noteq> [] then AboveTypeLine ts @ [CHR 0x0A] else []) @
                    ''export type '' @ objName obj @ '' = '' @ ValueType ts @ [CHR 0x0A])
                   (Structs m)\<rparr>), g1))"

text \<open>The switch of \<^verbatim>\<open>generateOne\<close> on the kind of the object, whose type is \<open>ty\<close>.\<close>

definition generateObject :: "Generator \<Rightarrow> Maps \<Rightarrow> Object \<Rightarrow> gotype \<Rightarrow> (error + Maps) \<times> Generator" where
  "generateObject g m obj ty =
     (let objectName = objName obj
      in case oKind obj of
           TypeName \<Rightarrow>
             (case ty of
                Named named underNamed targs \<Rightarrow>
                  (case underNamed of
                     Struct fs \<Rightarrow>
                       (case buildStruct g obj fs of
                          (Inl err, g1) \<Rightarrow>
                            (Inl (Errorf ''generate %q: %w'' [S objectName] (Some err)), g1)
                        | (Inr codeBlock, g1) \<Rightarrow>
                            (Inr (m\<lparr>Structs := AList.update objectName codeBlock (Structs m)\<rparr>),
                             g1))
                   | Basic b \<Rightarrow> (Inr (m\<lparr>Enums := AList.update objectName obj (Enums m)\<rparr>), g)
                   | Map k v \<Rightarrow> containerAlias g m obj underNamed
                   | Array e \<Rightarrow> containerAlias g m obj underNamed
                   | Slice e \<Rightarrow> containerAlias g m obj underNamed
                   | Interface isEmpty embeddeds \<Rightarrow>
                       (case embeddeds of
                          [embedded] \<Rightarrow>
                            (let union = (case embedded of Union terms \<Rightarrow> terms | _ \<Rightarrow> [embedded])
                             in case buildUnion g obj union of
                                  (Inl err, g1) \<Rightarrow>
                                    (Inl (Errorf ''generate union %q: %w'' [S objectName]
                                            (Some err)), g1)
                                | (Inr block, g1) \<Rightarrow>
                                    (Inr (m\<lparr>Generics :=
                                             AList.update objectName block (Generics m)\<rparr>), g1))
                        | _ \<Rightarrow> (Inr m, g))
                   | Signature \<Rightarrow> (Inr m, g)
                   | _ \<Rightarrow> (Inl (Errorf ''unsupported named type %q'' [T underNamed] None), g))
              | _ \<Rightarrow> (Inl (Panic ''all typename should be named types''), g))
         | Var \<Rightarrow> (Inr m, g)
         | Const v \<Rightarrow>
             (case ty of
                Named named underNamed targs \<Rightarrow>
                  (let enumObjName = objNameOf (nPkgName named) (nName named)
                   in (Inr (m\<lparr>EnumConsts :=
                              AList.update enumObjName (enumConstsOf m enumObjName @ [v])
                                (EnumConsts m)\<rparr>), g))
              | _ \<Rightarrow> (Inr m, g))
         | Func \<Rightarrow> (Inr m, g)
         | OtherObject \<Rightarrow> (Inr m, g))"

definition generateOne :: "Generator \<Rightarrow> Maps \<Rightarrow> Object \<Rightarrow> (error + Maps) \<times> Generator" where
  "generateOne g m obj =
     (case oType obj of
        None \<Rightarrow> (Inr m, g)
      | Some ty \<Rightarrow>
          if oName obj \<in> set (IgnoredTypes m) then (Inr m, g)
          else if (AllowedTypes m \<noteq> [] \<or> onlyOptIn g) \<and> oName obj \<notin> set (AllowedTypes m) \<and>
                  (case oKind obj of Const v \<Rightarrow> False | _ \<Rightarrow> True)
          then (Inr m, g)
          else generateObject g m obj ty)"

text \<open>The names a directive lists in one comment text: the regular expression
  \<^verbatim>\<open>@typescript-ignore[:]?(?P<ignored_types>.*)\<close> (or the one for \<^verbatim>\<open>@typescript-generate\<close>)
  matches at the first occurrence of the marker, skips one colon, and captures the rest of the
  line; a non-empty capture is split at the commas and every piece is trimmed.\<close>

definition directive :: "string \<Rightarrow> string \<Rightarrow> string list" where
  "directive marker text =
     (case afterFirst marker text of
        None \<Rightarrow> []
      | Some rest \<Rightarrow>
          (let rest = (case rest of [] \<Rightarrow> [] | c # r \<Rightarrow> if c = CHR '':'' then r else c # r);
               captured = takeWhile (\<lambda>c. c \<noteq> CHR 0x0A) rest
           in if captured = [] then [] else map TrimSpace (Split captured CHR '','')))"

definition addNames :: "string list \<Rightarrow> string list \<Rightarrow> string list" where
  "addNames names present = fold List.insert names present"

text \<open>The loop over the names of the scope.\<close>

fun generateNames :: "Generator \<Rightarrow> Maps \<Rightarrow> string list \<Rightarrow> (error + Maps) \<times> Generator" where
  "generateNames g m [] = (Inr m, g)"
| "generateNames g m (n # ns) =
     (case Lookup (pkg g) n of
        None \<Rightarrow> generateNames g m ns
      | Some obj \<Rightarrow>
          (case generateOne g m obj of
             (Inl err, g1) \<Rightarrow> (Inl (Errorf ''%q: %w'' [S n] (Some err)), g1)
           | (Inr m1, g1) \<Rightarrow> generateNames g1 m1 ns))"

text \<open>The code block of one enum: \<open>v\<close> is the declaration of the type, \<open>consts\<close> are the
  values of its constants as \<^verbatim>\<open>m.EnumConsts[name]\<close> holds them.\<close>

definition pluralName :: "string \<Rightarrow> string" where
  "pluralName name = (if HasSuffix name ''s'' then name @ ''es'' else name @ ''s'')"

definition enumCodeBlock :: "string \<Rightarrow> Object \<Rightarrow> string list \<Rightarrow> string" where
  "enumCodeBlock name v consts =
     (let values = sort consts;
          joined = Join values '' | '';
          joined = (if joined = [] then ''never'' else joined)
      in posLine v @
         ''export type '' @ name @ '' = '' @ joined @ [CHR 0x0A] @
         ''export const '' @ pluralName name @ '': '' @ name @ ''[] = ['' @ Join values '', '' @
         '']'' @ [CHR 0x0A])"

text \<open>The loop that writes all enums.\<close>

definition enumCodeBlocks :: "Maps \<Rightarrow> (string \<times> string) list" where
  "enumCodeBlocks m =
     fold (\<lambda>(name, v). AList.update name (enumCodeBlock name v (enumConstsOf m name)))
       (rangeOf (Enums m)) []"

text \<open>The result of a pass (the fields \<^verbatim>\<open>Enums\<close> and \<^verbatim>\<open>Generics\<close> of
  \<^verbatim>\<open>TypescriptTypes\<close> are \<open>Enums_t\<close> and \<open>Generics_t\<close> here).\<close>

record TypescriptTypes =
  Types :: "(string \<times> string) list"
  Enums_t :: "(string \<times> string) list"
  Generics_t :: "(string \<times> string) list"

definition generateAll :: "Generator \<Rightarrow> (error + TypescriptTypes) \<times> Generator" where
  "generateAll g =
     (let m = \<lparr>Structs = [], Generics = [], Enums = [], EnumConsts = [], IgnoredTypes = [],
                AllowedTypes = addNames (map TrimSpace (allowList g)) []\<rparr>;
          m = m\<lparr>IgnoredTypes :=
                  fold (\<lambda>text. addNames (directive ''@typescript-ignore'' text))
                    (pkgComments (pkg g)) (IgnoredTypes m)\<rparr>;
          m = m\<lparr>AllowedTypes :=
                  fold (\<lambda>text. addNames (directive ''@typescript-generate'' text))
                    (pkgComments (pkg g)) (AllowedTypes m)\<rparr>
      in case generateNames g m (Names (pkg g)) of
           (Inl err, g1) \<Rightarrow> (Inl err, g1)
         | (Inr m, g1) \<Rightarrow>
             (let generics = fold (\<lambda>(n, value) gens.
                                     if value \<noteq> [] then AList.update n value gens else gens)
                               (rangeOf (builtins g1)) (Generics m)
              in (Inr \<lparr>Types = Structs m, Enums_t = enumCodeBlocks m, Generics_t = generics\<rparr>,
                  g1)))"

subsection \<open>Printing the result\<close>

text \<open>The keys of a group are gathered by ranging over its map and sorted before the blocks
  are written. \<open>writeBlocks\<close> is one of the three groups of \<^verbatim>\<open>TypescriptTypes.String\<close>.\<close>

definition writeBlocks :: "(string \<times> string) list \<Rightarrow> string" where
  "writeBlocks m =
     concat (map (\<lambda>k. (case map_of m k of None \<Rightarrow> [] | Some v \<Rightarrow> v) @ [CHR 0x0A])
               (sort (map fst (rangeOf m))))"

definition String_t :: "TypescriptTypes \<Rightarrow> string" where
  "String_t t =
     TrimRight_newline (writeBlocks (Types t) @ writeBlocks (Enums_t t) @ writeBlocks (Generics_t t))"

subsection \<open>The loop of main over one external generator\<close>

text \<open>The loop runs a full pass, and runs another one whenever the pass has changed the
  length of the allow list; an error of a pass ends the run (\<^verbatim>\<open>log.Fatal\<close>). The result
  counts the passes made.\<close>

partial_function (option) generateExternal ::
    "nat \<Rightarrow> Generator \<Rightarrow> (nat \<times> (error + TypescriptTypes) \<times> Generator) option" where
  "generateExternal passes ext =
     (case generateAll ext of
        (Inl err, ext1) \<Rightarrow> Some (Suc passes, Inl err, ext1)
      | (Inr ts, ext1) \<Rightarrow>
          if length (allowList ext1) \<noteq> length (allowList ext)
          then generateExternal (Suc passes) ext1
          else Some (Suc passes, Inr ts, ext1))"

subsection \<open>The enum block as the specification words it\<close>


subsection \<open>Example inputs\<close>

text \<open>A scalar alias \<^verbatim>\<open>type T string\<close> of package \<^verbatim>\<open>codersdk\<close>, declared in
  \<^verbatim>\<open>t.go\<close>, and the maps after three constants \<^verbatim>\<open>"b"\<close>, \<^verbatim>\<open>"a"\<close>, \<^verbatim>\<open>"a"\<close> of that
  type have been registered.\<close>

definition scalarAlias :: "string \<Rightarrow> Object" where
  "scalarAlias name =
     \<lparr>oKind = TypeName, oName = name, oPkgName = ''codersdk'', oFile = ''t.go'',
      oType = Some (Named \<lparr>nName = name, nPkgName = ''codersdk'',
                            nString = ''github.com/coder/coder/v2/codersdk.'' @ name,
                            nTypeParams = []\<rparr> (Basic (Typ String)) [])\<rparr>"

definition mapsOfEnum :: "string \<Rightarrow> string list \<Rightarrow> Maps" where
  "mapsOfEnum name consts =
     \<lparr>Structs = [], Generics = [], Enums = [(name, scalarAlias name)],
      EnumConsts = (if consts = [] then [] else [(name, consts)]),
      IgnoredTypes = [], AllowedTypes = []\<rparr>"

text \<open>Declarations of a package, written with few arguments: a field with its tag, a
  reference to a named type, a type declaration, a type parameter, and a generator for a
  package with the given scope, no external package and no directive.\<close>

definition field :: "string \<Rightarrow> bool \<Rightarrow> string \<Rightarrow> (string \<times> string) list \<Rightarrow> Field" where
  "field name embedded pkgname tags =
     \<lparr>fName = name, fEmbedded = embedded, fExported = True, fPkgName = pkgname, fTag = Tag tags\<rparr>"

definition namedRef :: "string \<Rightarrow> string \<Rightarrow> string list \<Rightarrow> gotype \<Rightarrow> gotype" where
  "namedRef pkgname name tparams underlying =
     Named \<lparr>nName = name, nPkgName = pkgname, nString = ''example.com/'' @ pkgname @ ''.'' @ name,
            nTypeParams = tparams\<rparr> underlying []"

definition typeDecl :: "string \<Rightarrow> string \<Rightarrow> string list \<Rightarrow> gotype \<Rightarrow> Object" where
  "typeDecl pkgname name tparams underlying =
     \<lparr>oKind = TypeName, oName = name, oPkgName = pkgname, oFile = ''types.go'',
      oType = Some (namedRef pkgname name tparams underlying)\<rparr>"

definition typeParamOf :: "string \<Rightarrow> string \<Rightarrow> gotype" where
  "typeParamOf name constraint =
     TypeParam \<lparr>tpName = name, tpPkgPath = ''example.com/codersdk'', tpConstraint = constraint,
                tpUnderlyingInterface = True\<rparr>"

definition generatorOf :: "string \<Rightarrow> (string \<times> Object) list \<Rightarrow> Generator" where
  "generatorOf pkgname scope =
     \<lparr>pkg = \<lparr>pkgName = pkgname, pkgScope = scope, pkgComments = []\<rparr>,
      onlyOptIn = False, allowList = [], externals = [], builtins = []\<rparr>"

text \<open>A record that embeds three records of its own package: one without a tag, one with the
  tag \<^verbatim>\<open>json:"audit"\<close>, one with the tag \<^verbatim>\<open>json:"-"\<close>.
  \<^verbatim>\<open>
  type Child struct {
      Base
      Audit  `json:"audit"`
      Hidden `json:"-"`
  }
  \<close>\<close>

definition childFields :: "string \<Rightarrow> (Field \<times> gotype) list" where
  "childFields pkgname =
     [(field ''Base'' True pkgname [], namedRef pkgname ''Base'' [] (Struct [])),
      (field ''Audit'' True pkgname [(''json'', ''audit'')], namedRef pkgname ''Audit'' [] (Struct [])),
      (field ''Hidden'' True pkgname [(''json'', ''-'')], namedRef pkgname ''Hidden'' [] (Struct []))]"

definition childDecl :: "string \<Rightarrow> Object" where
  "childDecl pkgname = typeDecl pkgname ''Child'' [] (Struct (childFields pkgname))"

definition childScope :: "string \<Rightarrow> (string \<times> Object) list" where
  "childScope pkgname =
     [(''Audit'', typeDecl pkgname ''Audit'' [] (Struct [])),
      (''Base'', typeDecl pkgname ''Base'' [] (Struct [])),
      (''Child'', childDecl pkgname),
      (''Hidden'', typeDecl pkgname ''Hidden'' [] (Struct []))]"

text \<open>A record whose fields use its type parameters in the reverse of their declaration
  order, and the record of the comment in \<^verbatim>\<open>buildStruct\<close>, which does not use its
  parameter.
  \<^verbatim>\<open>
  type Pair[A comparable, B any] struct {
      Second B `json:"second"`
      First  A `json:"first"`
  }
  type Foo[A any] struct {
      Bar string
  }
  \<close>\<close>

definition pairFields :: "(Field \<times> gotype) list" where
  "pairFields =
     [(field ''Second'' False ''codersdk'' [(''json'', ''second'')], typeParamOf ''B'' ''any''),
      (field ''First'' False ''codersdk'' [(''json'', ''first'')], typeParamOf ''A'' ''comparable'')]"

definition pairDecl :: Object where
  "pairDecl = typeDecl ''codersdk'' ''Pair'' [''A'', ''B''] (Struct pairFields)"

definition fooFields :: "(Field \<times> gotype) list" where
  "fooFields = [(field ''Bar'' False ''codersdk'' [], Basic (Typ String))]"

definition fooDecl :: Object where
  "fooDecl = typeDecl ''codersdk'' ''Foo'' [''A''] (Struct fooFields)"

text \<open>The same three groups of code blocks, inserted in two different orders.\<close>

definition blocksInOneOrder :: TypescriptTypes where
  "blocksInOneOrder =
     \<lparr>Types = [(''User'', ''interface User''), (''Apple'', ''interface Apple'')],
      Enums_t = [(''Role'', ''type Role''), (''Kind'', ''type Kind'')],
      Generics_t = [(''comparable'', ''type comparable'')]\<rparr>"

definition blocksInAnotherOrder :: TypescriptTypes where
  "blocksInAnotherOrder =
     \<lparr>Types = [(''Apple'', ''interface Apple''), (''User'', ''interface User'')],
      Enums_t = [(''Kind'', ''type Kind''), (''Role'', ''type Role'')],
      Generics_t = [(''comparable'', ''type comparable'')]\<rparr>"

subsection \<open>Growth of the allow list\<close>

text \<open>The names a generator can resolve: those of its own scope and of the scopes of its
  externals. In \<^verbatim>\<open>main\<close> the external generators have no externals of their own, and these
  are the declarations of the one scope.\<close>

definition declared :: "Generator \<Rightarrow> string set" where
  "declared g =
     fst ` set (pkgScope (pkg g)) \<union>
     \<Union> (set (map (\<lambda>p. fst ` set (pkgScope p)) (map extPkg (externals g))))"

text \<open>What the mapper may do to a generator: the packages and the opt-in flag stay, and the
  allow list gets new names at its end, each one once, none that it held, all of them
  resolvable.\<close>

definition grows :: "Generator \<Rightarrow> Generator \<Rightarrow> bool" where
  "grows g g' =
     (pkg g' = pkg g \<and> onlyOptIn g' = onlyOptIn g \<and>
      map extPkg (externals g') = map extPkg (externals g) \<and>
      (\<exists>added. allowList g' = allowList g @ added \<and> distinct added \<and>
               set added \<inter> set (allowList g) = {} \<and> set added \<subseteq> declared g))"

text \<open>An external package \<^verbatim>\<open>health\<close> with three declarations, of which the primary
  package has referenced \<^verbatim>\<open>Message\<close>; \<^verbatim>\<open>Message\<close> in turn refers to \<^verbatim>\<open>Code\<close>.
  \<^verbatim>\<open>
  type Severity string
  type Message struct {
      Code Code `json:"code"`
  }
  type Code string
  \<close>\<close>

definition messageFields :: "(Field \<times> gotype) list" where
  "messageFields =
     [(field ''Code'' False ''health'' [(''json'', ''code'')],
       namedRef ''health'' ''Code'' [] (Basic (Typ String)))]"

definition healthScope :: "(string \<times> Object) list" where
  "healthScope =
     [(''Severity'', typeDecl ''health'' ''Severity'' [] (Basic (Typ String))),
      (''Message'', typeDecl ''health'' ''Message'' [] (Struct messageFields)),
      (''Code'', typeDecl ''health'' ''Code'' [] (Basic (Typ String)))]"

definition healthGenerator :: "string list \<Rightarrow> Generator" where
  "healthGenerator allowed =
     (generatorOf ''health'' healthScope)\<lparr>onlyOptIn := True, allowList := allowed\<rparr>"

definition healthTypes :: "(string \<times> string) list" where
  "healthTypes =
     [(''HealthMessage'',
       ''// From health/types.go'' @ [CHR 0x0A] @
       ''export interface HealthMessage {'' @ [CHR 0x0A] @
       ''  readonly code: HealthCode'' @ [CHR 0x0A] @ ''}'' @ [CHR 0x0A])]"

definition healthEnums :: "(string \<times> string) list" where
  "healthEnums =
     [(''HealthCode'',
       ''// From health/types.go'' @ [CHR 0x0A] @
       ''export type HealthCode = never'' @ [CHR 0x0A] @
       ''export const HealthCodes: HealthCode[] = []'' @ [CHR 0x0A])]"

subsection \<open>A pass over a scope with a scalar alias\<close>

text \<open>The maps as \<^verbatim>\<open>generateAll\<close> has them when it starts on the names of the scope: the
  allow list and the two directives have been read, nothing has been generated.\<close>

definition firstMaps :: "Generator \<Rightarrow> Maps" where
  "firstMaps g =
     \<lparr>Structs = [], Generics = [], Enums = [], EnumConsts = [],
      IgnoredTypes =
        fold (\<lambda>text. addNames (directive ''@typescript-ignore'' text)) (pkgComments (pkg g)) [],
      AllowedTypes =
        fold (\<lambda>text. addNames (directive ''@typescript-generate'' text)) (pkgComments (pkg g))
          (addNames (map TrimSpace (allowList g)) [])\<rparr>"

text \<open>The two tests at the head of \<^verbatim>\<open>generateOne\<close>, for a declaration that is no
  constant: it is not ignored, and it is allowed when the pass is restricted to an allow
  list.\<close>

definition passesFilter :: "Generator \<Rightarrow> Object \<Rightarrow> bool" where
  "passesFilter g obj =
     (oName obj \<notin> set (IgnoredTypes (firstMaps g)) \<and>
      \<not> ((AllowedTypes (firstMaps g) \<noteq> [] \<or> onlyOptIn g) \<and>
         oName obj \<notin> set (AllowedTypes (firstMaps g))))"

text \<open>The enum that a typed constant is filed under, and the typed constants that a scope
  holds for an enum.\<close>

definition enumTypeOf :: "Object \<Rightarrow> string option" where
  "enumTypeOf obj =
     (case oKind obj of
        Const v \<Rightarrow>
          (case oType obj of
             Some (Named named underNamed targs) \<Rightarrow> Some (objNameOf (nPkgName named) (nName named))
           | _ \<Rightarrow> None)
      | _ \<Rightarrow> None)"

definition constantsOf :: "Package \<Rightarrow> string \<Rightarrow> Object list" where
  "constantsOf p enumObjName =
     filter (\<lambda>obj. enumTypeOf obj = Some enumObjName) (map snd (pkgScope p))"

text \<open>A scope as \<^verbatim>\<open>go/types\<close> builds it holds every object under the object's own name,
  and its objects belong to the package of the scope.\<close>

definition wellFormed :: "Package \<Rightarrow> bool" where
  "wellFormed p = list_all (\<lambda>(n, obj). oName obj = n \<and> oPkgName obj = pkgName p) (pkgScope p)"

section \<open>Properties\<close>

subsection \<open>Auxiliary facts\<close>

lemma HasSuffix_s: "HasSuffix name ''s'' \<longleftrightarrow> name \<noteq> [] \<and> last name = CHR ''s''"
proof (cases name rule: rev_cases)
  case Nil
  then show ?thesis by (simp add: HasSuffix_def)
next
  case (snoc ys y)
  then show ?thesis by (auto simp: HasSuffix_def)
qed

text \<open>A loop that writes one entry for every visited key leaves, under each key, the entry
  computed from the value visited.\<close>

lemma map_of_fold_update:
  "distinct (map fst xs) \<Longrightarrow>
   map_of (fold (\<lambda>(k, v). AList.update k (f k v)) xs acc) k =
     (case map_of xs k of Some v \<Rightarrow> Some (f k v) | None \<Rightarrow> map_of acc k)"
proof (induction xs arbitrary: acc)
  case Nil
  then show ?case by simp
next
  case (Cons x xs)
  obtain a b where x: "x = (a, b)" by (cases x)
  from Cons.prems have d: "distinct (map fst xs)" and nin: "a \<notin> fst ` set xs"
    by (auto simp: x)
  show ?case
  proof (cases "k = a")
    case True
    with nin have "map_of xs k = None" by (simp add: map_of_eq_None_iff)
    with True Cons.IH[OF d, of "AList.update a (f a b) acc"] show ?thesis
      by (simp add: x update_conv)
  next
    case False
    with Cons.IH[OF d, of "AList.update a (f a b) acc"] show ?thesis
      by (simp add: x update_conv split: option.splits)
  qed
qed

lemma map_of_enumCodeBlocks:
  "map_of (enumCodeBlocks m) name =
     map_option (\<lambda>v. enumCodeBlock name v (enumConstsOf m name)) (map_of (Enums m) name)"
  unfolding enumCodeBlocks_def rangeOf_def
  by (simp add: map_of_fold_update[OF distinct_clearjunk] map_of_clearjunk split: option.splits)

lemma enumCodeBlock_text:
  "enumCodeBlock name v consts =
     posLine v @ ''export type '' @ name @ '' = '' @
       (if Join (sort consts) '' | '' = [] then ''never'' else Join (sort consts) '' | '') @
       [CHR 0x0A] @
     ''export const '' @ pluralName name @ '': '' @ name @ ''[] = ['' @
       Join (sort consts) '', '' @ '']'' @ [CHR 0x0A]"
  by (simp add: enumCodeBlock_def Let_def)

subsection \<open>Enums\<close>




text \<open>C9: the companion array constant of every enum is named by the type name with
  \<^verbatim>\<open>es\<close> appended when the type name ends in \<^verbatim>\<open>s\<close>, and with \<^verbatim>\<open>s\<close> appended
  otherwise.\<close>

theorem companion_array_name:
  "map_of (Enums m) name = Some v \<Longrightarrow>
   \<exists>typeLine values.
     map_of (enumCodeBlocks m) name =
       Some (typeLine @ ''export const '' @
             (if name \<noteq> [] \<and> last name = CHR ''s'' then name @ ''es'' else name @ ''s'') @
             '': '' @ name @ ''[] = ['' @ values @ '']'' @ [CHR 0x0A])"
proof -
  assume "map_of (Enums m) name = Some v"
  then have "map_of (enumCodeBlocks m) name =
       Some ((posLine v @ ''export type '' @ name @ '' = '' @
              (if Join (sort (enumConstsOf m name)) '' | '' = [] then ''never''
               else Join (sort (enumConstsOf m name)) '' | '') @ [CHR 0x0A]) @
             ''export const '' @
             (if name \<noteq> [] \<and> last name = CHR ''s'' then name @ ''es'' else name @ ''s'') @
             '': '' @ name @ ''[] = ['' @ Join (sort (enumConstsOf m name)) '', '' @ '']'' @
             [CHR 0x0A])"
    by (simp add: map_of_enumCodeBlocks enumCodeBlock_text pluralName_def HasSuffix_s)
  then show ?thesis by blast
qed

theorem companion_array_name_witness:
  "map_of (Enums (mapsOfEnum ''Status'' [])) ''Status'' = Some (scalarAlias ''Status'')
   \<and> (\<exists>typeLine values.
        map_of (enumCodeBlocks (mapsOfEnum ''Status'' [])) ''Status'' =
          Some (typeLine @ ''export const Statuses: Status[] = ['' @ values @ '']'' @ [CHR 0x0A]))
   \<and> map_of (Enums (mapsOfEnum ''Bus'' [])) ''Bus'' = Some (scalarAlias ''Bus'')
   \<and> (\<exists>typeLine values.
        map_of (enumCodeBlocks (mapsOfEnum ''Bus'' [])) ''Bus'' =
          Some (typeLine @ ''export const Buses: Bus[] = ['' @ values @ '']'' @ [CHR 0x0A]))"
  using companion_array_name [of "mapsOfEnum ''Status'' []" "''Status''" "scalarAlias ''Status''"]
        companion_array_name [of "mapsOfEnum ''Bus'' []" "''Bus''" "scalarAlias ''Bus''"]
  by (simp add: mapsOfEnum_def)

subsection \<open>The type mapper\<close>

text \<open>C3 fails on the code: the case for the byte kind comes after the case for the numeric
  kinds, and \<^verbatim>\<open>byte\<close> and \<^verbatim>\<open>uint8\<close> are numeric, so the case is never reached. Both are
  mapped to \<^verbatim>\<open>number\<close> with an empty \<^verbatim>\<open>AboveTypeLine\<close>.\<close>

theorem byte_mapped_without_comment:
  "typescriptType g (Basic AliasByte) =
     (Inr \<lparr>GenericTypes = None, GenericValue = [], ValueType = ''number'', AboveTypeLine = [],
           Optional = False\<rparr>, g)
   \<and> typescriptType g (Basic (Typ Uint8)) =
     (Inr \<lparr>GenericTypes = None, GenericValue = [], ValueType = ''number'', AboveTypeLine = [],
           Optional = False\<rparr>, g)"
  by (simp add: basicType_def Info_def IsNumeric_def IsInteger_def IsFloat_def IsComplex_def
      IsUnsigned_def valueOnly_def)

lemmas example_defs =
  field_def namedRef_def typeDecl_def typeParamOf_def generatorOf_def childFields_def childDecl_def
  childScope_def pairFields_def pairDecl_def fooFields_def fooDecl_def

lemmas builder_defs =
  buildStruct_def buildStructState_def isExtended_def tagsGet_def parseValue_def nameIsDash_def
  firstOptionIs_def jsonNameOf_def applyTypescriptTag_def gatherGenerics_def fieldLines_def
  wellKnown_def lookupNamedReference_def Lookup_def allowSelf_def allowExternal_def objNameOf_def
  objName_def posLine_def structTemplate_def indent_def valueOnly_def basicType_def Info_def
  IsNumeric_def IsInteger_def IsFloat_def IsComplex_def IsString_def IsBoolean_def typeParam_def
  TrimPrefix_def HasPrefix_def rangeOf_def matchHere_def mapType_def mergeGens_def Let_def

text \<open>C4 fails on the code for a map whose key type has no bindings and whose value type has
  some: the bindings of the key are the nil map, and the loop that merges the bindings of the
  value into them writes to it. For \<^verbatim>\<open>map[string]T\<close> with a type parameter \<^verbatim>\<open>T any\<close>
  the mapper panics instead of returning \<^verbatim>\<open>Record<string, any>\<close> with the binding of
  \<^verbatim>\<open>T\<close>.\<close>

theorem map_with_unbound_key_panics:
  "typescriptType (generatorOf ''codersdk'' []) (Map (Basic (Typ String)) (typeParamOf ''T'' ''any'')) =
     (Inl (Panic ''assignment to entry in nil map''),
      (generatorOf ''codersdk'' [])\<lparr>builtins := [(''any'', [])]\<rparr>)"
  by (simp add: example_defs builder_defs)

text \<open>Where the write does not panic, the map case does what C4 says: the value type is
  \<^verbatim>\<open>Record<K, V>\<close>, the bindings of the value type are merged into those of the key type and
  win where both bind a name, and the comments of both sides are kept, one per line.\<close>

lemma map_of_fold_merge:
  "map_of (fold (\<lambda>(k, v). AList.update k v) xs m) = map_of m ++ map_of xs"
  if "distinct (map fst xs)"
  using that
proof (induction xs arbitrary: m)
  case Nil
  then show ?case by simp
next
  case (Cons x xs)
  obtain a b where x: "x = (a, b)" by (cases x)
  from Cons.prems have d: "distinct (map fst xs)" and nin: "a \<notin> fst ` set xs"
    by (auto simp: x)
  from nin have n: "map_of xs a = None" by (simp add: map_of_eq_None_iff)
  have "map_of (fold (\<lambda>(k, v). AList.update k v) (x # xs) m) =
        (map_of m)(a \<mapsto> b) ++ map_of xs"
    by (simp add: x Cons.IH[OF d] update_conv' del: fun_upd_apply)
  also have "\<dots> = map_of m ++ map_of (x # xs)"
    using n by (auto simp: x map_add_def fun_eq_iff split: option.splits)
  finally show ?case .
qed

lemma map_bindings_merged:
  assumes "typescriptType g key = (Inr keyType, g1)"
    and "typescriptType g1 elem = (Inr valueType, g2)"
    and "GenericTypes keyType = Some keyGens"
  shows "\<exists>gens. typescriptType g (Map key elem) =
      (Inr \<lparr>GenericTypes = Some gens, GenericValue = [],
            ValueType = ''Record<'' @ ValueType keyType @ '', '' @ ValueType valueType @ ''>'',
            AboveTypeLine = AboveTypeLine keyType @
              (if AboveTypeLine keyType \<noteq> [] \<and> AboveTypeLine valueType \<noteq> []
               then [CHR 0x0A] else []) @ AboveTypeLine valueType,
            Optional = False\<rparr>, g2)
    \<and> map_of gens = map_of keyGens ++ map_of (entries (GenericTypes valueType))"
proof (cases "entries (GenericTypes valueType)")
  case Nil
  with assms show ?thesis
    by (simp add: mapType_def mergeGens_def valueOnly_def Let_def)
next
  case (Cons kv kvs)
  have d: "distinct (map fst (entries (GenericTypes valueType)))"
    by (cases "GenericTypes valueType") (simp_all add: rangeOf_def)
  from map_of_fold_merge[OF d, of keyGens] Cons assms show ?thesis
    by (simp add: mapType_def mergeGens_def valueOnly_def Let_def)
qed

subsection \<open>The record builder\<close>

lemma genericParams_Inr:
  "genericParams obj used params acc = Inr gens \<Longrightarrow>
   gens = acc @ map (\<lambda>name. name @ '' extends '' @ the (map_of used name)) params \<and>
   set params \<subseteq> dom (map_of used)"
proof (induction params arbitrary: acc)
  case Nil
  then show ?case by simp
next
  case (Cons p ps)
  from Cons.prems obtain c where c: "map_of used p = Some c"
    and r: "genericParams obj used ps (acc @ [p @ '' extends '' @ c]) = Inr gens"
    by (auto split: option.splits)
  from Cons.IH[OF r] c show ?case by auto
qed

lemma genericParams_Inl:
  "name \<in> set params \<Longrightarrow> map_of used name = None \<Longrightarrow>
   \<exists>param. param \<in> set params \<and> map_of used param = None \<and>
     genericParams obj used params acc =
       Inl (Errorf ''generic param %q missing on %q, fix your data structure''
              [S param, S (oName obj)] None)"
proof (induction params arbitrary: acc)
  case Nil
  then show ?case by simp
next
  case (Cons p ps)
  show ?case
  proof (cases "map_of used p")
    case None
    then show ?thesis by auto
  next
    case (Some c)
    with Cons.prems have "name \<in> set ps" by auto
    from Cons.IH[OF this Cons.prems(2), of "acc @ [p @ '' extends '' @ c]"] Some
    show ?thesis by auto
  qed
qed


text \<open>What a successful \<^verbatim>\<open>buildStruct\<close> has gone through.\<close>

lemma buildStructState_Inr:
  assumes "buildStructState g obj st = (Inr state, g1)"
  shows "\<exists>named underlying targs flds used gens.
     oKind obj = TypeName \<and> oType obj = Some (Named named underlying targs) \<and>
     structFields g st ([], []) = (Inr (flds, used), g1) \<and>
     genericParams obj used (nTypeParams named) [] = Inr gens \<and>
     state = \<lparr>PosLine = posLine obj, Name_s = objName obj, Fields = flds, Generics_s = gens,
              Extends = Join (map fName (filter isExtended (map fst st))) '', '',
              AboveLine = []\<rparr>"
proof -
  obtain r g' where sf: "structFields g st ([], []) = (r, g')"
    by (cases "structFields g st ([], [])")
  show ?thesis
  proof (cases r)
    case (Inl e)
    with assms sf show ?thesis by (simp add: buildStructState_def)
  next
    case (Inr p)
    obtain flds used where p: "p = (flds, used)" by (cases p)
    show ?thesis
    proof (cases "oKind obj = TypeName")
      case False
      with assms sf Inr p show ?thesis by (simp add: buildStructState_def)
    next
      case True
      show ?thesis
      proof (cases "oType obj")
        case None
        with assms sf Inr p True show ?thesis by (simp add: buildStructState_def)
      next
        case (Some ty)
        show ?thesis
        proof (cases ty)
          case (Named named underlying targs)
          with assms sf Inr p True Some show ?thesis
            by (cases "genericParams obj used (nTypeParams named) []")
               (auto simp: buildStructState_def)
        qed (use assms sf Inr p True Some in \<open>simp_all add: buildStructState_def\<close>)
      qed
    qed
  qed
qed




text \<open>C6: the generic parameter list of an emitted interface names the declared type
  parameters of the record in their declaration order, each with the constraint gathered
  for it from the fields (\<^verbatim>\<open>genericsUsed\<close>, which binds every one of them), whatever the
  order of the fields.\<close>

theorem generic_parameters_in_declaration_order:
  "buildStruct g obj st = (Inr text, g1) \<Longrightarrow>
   \<exists>named underlying targs flds used.
     oType obj = Some (Named named underlying targs) \<and>
     structFields g st ([], []) = (Inr (flds, used), g1) \<and>
     set (nTypeParams named) \<subseteq> dom (map_of used) \<and>
     text =
       posLine obj @ ''export interface '' @ objName obj @
       (if nTypeParams named \<noteq> []
        then ''<'' @ Join (map (\<lambda>name. name @ '' extends '' @ the (map_of used name))
                            (nTypeParams named)) '', '' @ ''>''
        else []) @
       (if Join (map fName (filter isExtended (map fst st))) '', '' \<noteq> []
        then '' extends '' @ Join (map fName (filter isExtended (map fst st))) '', '' else []) @
       '' {'' @ [CHR 0x0A] @ Join flds [CHR 0x0A] @ [CHR 0x0A] @ ''}'' @ [CHR 0x0A]"
proof -
  assume a: "buildStruct g obj st = (Inr text, g1)"
  then obtain state where s: "buildStructState g obj st = (Inr state, g1)"
    and t: "text = structTemplate state"
    by (auto simp: buildStruct_def split: prod.splits sum.splits)
  from buildStructState_Inr[OF s] obtain named underlying targs flds used gens where
    b: "oType obj = Some (Named named underlying targs)"
       "structFields g st ([], []) = (Inr (flds, used), g1)"
       "genericParams obj used (nTypeParams named) [] = Inr gens"
       "state = \<lparr>PosLine = posLine obj, Name_s = objName obj, Fields = flds, Generics_s = gens,
              Extends = Join (map fName (filter isExtended (map fst st))) '', '',
              AboveLine = []\<rparr>"
    by blast
  from genericParams_Inr[OF b(3)]
  have gens: "gens = map (\<lambda>name. name @ '' extends '' @ the (map_of used name)) (nTypeParams named)"
    and bound: "set (nTypeParams named) \<subseteq> dom (map_of used)"
    by simp_all
  have "text =
       posLine obj @ ''export interface '' @ objName obj @
       (if nTypeParams named \<noteq> []
        then ''<'' @ Join (map (\<lambda>name. name @ '' extends '' @ the (map_of used name))
                            (nTypeParams named)) '', '' @ ''>''
        else []) @
       (if Join (map fName (filter isExtended (map fst st))) '', '' \<noteq> []
        then '' extends '' @ Join (map fName (filter isExtended (map fst st))) '', '' else []) @
       '' {'' @ [CHR 0x0A] @ Join flds [CHR 0x0A] @ [CHR 0x0A] @ ''}'' @ [CHR 0x0A]"
    unfolding t b(4) gens by (simp add: structTemplate_def)
  with b(1,2) bound show ?thesis by blast
qed

theorem generic_parameters_in_declaration_order_witness:
  "buildStruct (generatorOf ''codersdk'' []) pairDecl pairFields =
     (Inr (''// From codersdk/types.go'' @ [CHR 0x0A] @
           ''export interface Pair<A extends comparable, B extends any> {'' @ [CHR 0x0A] @
           ''  readonly second: B'' @ [CHR 0x0A] @
           ''  readonly first: A'' @ [CHR 0x0A] @ ''}'' @ [CHR 0x0A]),
      (generatorOf ''codersdk'' [])
        \<lparr>builtins := [(''any'', []),
                      (''comparable'', ''export type comparable = boolean | number | string | any'')]\<rparr>)
   \<and> (\<exists>flds used.
        structFields (generatorOf ''codersdk'' []) pairFields ([], []) =
          (Inr (flds, used),
           (generatorOf ''codersdk'' [])
             \<lparr>builtins := [(''any'', []),
                (''comparable'', ''export type comparable = boolean | number | string | any'')]\<rparr>)
        \<and> map fst used = [''B'', ''A''])"
proof -
  have b: "buildStruct (generatorOf ''codersdk'' []) pairDecl pairFields =
     (Inr (''// From codersdk/types.go'' @ [CHR 0x0A] @
           ''export interface Pair<A extends comparable, B extends any> {'' @ [CHR 0x0A] @
           ''  readonly second: B'' @ [CHR 0x0A] @
           ''  readonly first: A'' @ [CHR 0x0A] @ ''}'' @ [CHR 0x0A]),
      (generatorOf ''codersdk'' [])
        \<lparr>builtins := [(''any'', []),
                      (''comparable'', ''export type comparable = boolean | number | string | any'')]\<rparr>)"
    by (simp add: example_defs builder_defs)
  have u: "structFields (generatorOf ''codersdk'' []) pairFields ([], []) =
        (Inr ([''  readonly second: B'', ''  readonly first: A''],
              [(''B'', ''any''), (''A'', ''comparable'')]),
         (generatorOf ''codersdk'' [])
           \<lparr>builtins := [(''any'', []),
              (''comparable'', ''export type comparable = boolean | number | string | any'')]\<rparr>)"
    by (simp add: example_defs builder_defs)
  from generic_parameters_in_declaration_order[OF b] b u show ?thesis
    by simp
qed

text \<open>C7: when the fields of a record have been processed and a declared type parameter is
  not among the bindings gathered from the mapped types of the emitted fields
  (\<^verbatim>\<open>genericsUsed\<close>), \<^verbatim>\<open>buildStruct\<close> returns an error and no declaration; the error
  carries the name of the first such parameter and the name of the record.\<close>

theorem unused_generic_parameter_is_an_error:
  "oKind obj = TypeName \<Longrightarrow> oType obj = Some (Named named underlying targs) \<Longrightarrow>
   structFields g st ([], []) = (Inr (flds, used), g1) \<Longrightarrow>
   name \<in> set (nTypeParams named) \<Longrightarrow> map_of used name = None \<Longrightarrow>
   \<exists>param. param \<in> set (nTypeParams named) \<and> map_of used param = None \<and>
     buildStruct g obj st =
       (Inl (Errorf ''generic param %q missing on %q, fix your data structure''
               [S param, S (oName obj)] None), g1)"
proof -
  assume a: "oKind obj = TypeName" "oType obj = Some (Named named underlying targs)"
    "structFields g st ([], []) = (Inr (flds, used), g1)"
    "name \<in> set (nTypeParams named)" "map_of used name = None"
  from genericParams_Inl[OF a(4) a(5), of obj "[]"]
  obtain param where p: "param \<in> set (nTypeParams named)" "map_of used param = None"
    "genericParams obj used (nTypeParams named) [] =
       Inl (Errorf ''generic param %q missing on %q, fix your data structure''
              [S param, S (oName obj)] None)"
    by blast
  have "buildStruct g obj st =
       (Inl (Errorf ''generic param %q missing on %q, fix your data structure''
               [S param, S (oName obj)] None), g1)"
    using a(1,2,3) p(3) by (simp add: buildStruct_def buildStructState_def)
  with p(1,2) show ?thesis by blast
qed

theorem unused_generic_parameter_is_an_error_witness:
  "oKind fooDecl = TypeName
   \<and> structFields (generatorOf ''codersdk'' []) fooFields ([], []) =
       (Inr ([''  readonly Bar: string''], []), generatorOf ''codersdk'' [])
   \<and> buildStruct (generatorOf ''codersdk'' []) fooDecl fooFields =
       (Inl (Errorf ''generic param %q missing on %q, fix your data structure''
               [S ''A'', S ''Foo''] None), generatorOf ''codersdk'' [])"
proof -
  have k: "oKind fooDecl = TypeName"
    and t: "oType fooDecl =
      Some (Named \<lparr>nName = ''Foo'', nPkgName = ''codersdk'', nString = ''example.com/codersdk.Foo'',
                   nTypeParams = [''A'']\<rparr> (Struct fooFields) [])"
    by (simp_all add: fooDecl_def typeDecl_def namedRef_def)
  have u: "structFields (generatorOf ''codersdk'' []) fooFields ([], []) =
       (Inr ([''  readonly Bar: string''], []), generatorOf ''codersdk'' [])"
    by (simp add: example_defs builder_defs)
  from unused_generic_parameter_is_an_error[OF k t u, of "''A''"] k u show ?thesis
    by (simp add: fooDecl_def typeDecl_def)
qed

subsection \<open>Printing\<close>

lemma sort_distinct: "distinct xs \<Longrightarrow> sort xs = sorted_list_of_set (set xs)"
  by (metis distinct_remdups_id sorted_list_of_set_sort_remdups)

lemma sort_keys: "sort (map fst (rangeOf m)) = sorted_list_of_set (dom (map_of m))"
proof -
  have d: "distinct (map fst (rangeOf m))"
    by (simp add: rangeOf_def)
  have s: "set (map fst (rangeOf m)) = dom (map_of m)"
    by (simp add: rangeOf_def dom_map_of_conv_image_fst dom_clearjunk)
  show ?thesis
    using sort_distinct[OF d] unfolding s .
qed

lemma writeBlocks_sorted:
  "writeBlocks m =
     concat (map (\<lambda>k. the (map_of m k) @ [CHR 0x0A]) (sorted_list_of_set (dom (map_of m))))"
proof -
  have "\<And>k. k \<in> set (sorted_list_of_set (dom (map_of m))) \<Longrightarrow>
      (case map_of m k of None \<Rightarrow> [] | Some v \<Rightarrow> v) = the (map_of m k)"
    by (auto simp: finite_dom_map_of)
  then show ?thesis
    unfolding writeBlocks_def sort_keys by (auto intro!: arg_cong[where f=concat] map_cong)
qed

text \<open>C8: the rendered text is determined by the contents of the three maps. Each group is
  written in the lexicographic order of its keys, so two results with the same contents, however
  their entries were inserted or are visited, print the same text. (The generator itself is a
  function of the scopes it is given; the order in which a Go map is visited is the only thing
  that varies between two runs.)\<close>

theorem rendering_depends_on_contents_only:
  "map_of (Types t) = map_of (Types t') \<Longrightarrow>
   map_of (Enums_t t) = map_of (Enums_t t') \<Longrightarrow>
   map_of (Generics_t t) = map_of (Generics_t t') \<Longrightarrow>
   String_t t = String_t t' \<and>
   String_t t =
     TrimRight_newline
       (concat (map (\<lambda>k. the (map_of (Types t) k) @ [CHR 0x0A])
                  (sorted_list_of_set (dom (map_of (Types t))))) @
        concat (map (\<lambda>k. the (map_of (Enums_t t) k) @ [CHR 0x0A])
                  (sorted_list_of_set (dom (map_of (Enums_t t))))) @
        concat (map (\<lambda>k. the (map_of (Generics_t t) k) @ [CHR 0x0A])
                  (sorted_list_of_set (dom (map_of (Generics_t t))))))"
  by (simp add: String_t_def writeBlocks_sorted)

theorem rendering_depends_on_contents_only_witness:
  "Types blocksInOneOrder \<noteq> Types blocksInAnotherOrder
   \<and> Enums_t blocksInOneOrder \<noteq> Enums_t blocksInAnotherOrder
   \<and> String_t blocksInOneOrder = String_t blocksInAnotherOrder
   \<and> String_t blocksInOneOrder =
       ''interface Apple'' @ [CHR 0x0A] @ ''interface User'' @ [CHR 0x0A] @
       ''type Kind'' @ [CHR 0x0A] @ ''type Role'' @ [CHR 0x0A] @ ''type comparable''"
proof -
  have 1: "map_of (Types blocksInOneOrder) = map_of (Types blocksInAnotherOrder)"
    by (auto simp: blocksInOneOrder_def blocksInAnotherOrder_def fun_eq_iff)
  have 2: "map_of (Enums_t blocksInOneOrder) = map_of (Enums_t blocksInAnotherOrder)"
    by (auto simp: blocksInOneOrder_def blocksInAnotherOrder_def fun_eq_iff)
  have 3: "map_of (Generics_t blocksInOneOrder) = map_of (Generics_t blocksInAnotherOrder)"
    by (simp add: blocksInOneOrder_def blocksInAnotherOrder_def)
  have 4: "String_t blocksInAnotherOrder =
       ''interface Apple'' @ [CHR 0x0A] @ ''interface User'' @ [CHR 0x0A] @
       ''type Kind'' @ [CHR 0x0A] @ ''type Role'' @ [CHR 0x0A] @ ''type comparable''"
    by (simp add: blocksInAnotherOrder_def String_t_def writeBlocks_def rangeOf_def
        TrimRight_newline_def)
  from rendering_depends_on_contents_only[OF 1 2 3] 4 show ?thesis
    by (simp add: blocksInOneOrder_def blocksInAnotherOrder_def)
qed

subsection \<open>The allow list only grows, by resolvable names\<close>

lemma grows_refl: "grows g g"
  by (simp add: grows_def)

lemma grows_same:
  "pkg g' = pkg g \<Longrightarrow> onlyOptIn g' = onlyOptIn g \<Longrightarrow> externals g' = externals g \<Longrightarrow>
   allowList g' = allowList g \<Longrightarrow> grows g g'"
  by (simp add: grows_def)

lemma grows_declared: "grows g g' \<Longrightarrow> declared g' = declared g"
  by (simp add: grows_def declared_def)

lemma grows_trans:
  assumes "grows g g'" and "grows g' g''"
  shows "grows g g''"
proof -
  from assms(1) obtain a where a: "allowList g' = allowList g @ a" "distinct a"
    "set a \<inter> set (allowList g) = {}" "set a \<subseteq> declared g"
    by (auto simp: grows_def)
  from assms(2) obtain b where b: "allowList g'' = allowList g' @ b" "distinct b"
    "set b \<inter> set (allowList g') = {}" "set b \<subseteq> declared g'"
    by (auto simp: grows_def)
  have d: "declared g' = declared g"
    using assms(1) by (rule grows_declared)
  have 1: "allowList g'' = allowList g @ (a @ b)"
    using a(1) b(1) by simp
  have 2: "distinct (a @ b)"
    using a(2) b(2) b(3) a(1) by auto
  have 3: "set (a @ b) \<inter> set (allowList g) = {}"
    using a(3) b(3) a(1) by auto
  have 4: "set (a @ b) \<subseteq> declared g"
    using a(4) b(4) d by auto
  from assms 1 2 3 4 show ?thesis
    unfolding grows_def by (intro conjI exI[of _ "a @ b"]) simp_all
qed

lemma grows_allowSelf: "name \<in> declared g \<Longrightarrow> grows g (allowSelf g name)"
  unfolding grows_def allowSelf_def
  by (cases "onlyOptIn g \<and> name \<notin> set (allowList g)") (auto intro: exI[of _ "[name]"])

lemma grows_allowExternal: "grows g (allowExternal g objGen name)"
proof (cases objGen)
  case None
  then show ?thesis by (simp add: allowExternal_def grows_refl)
next
  case (Some i)
  have "map extPkg ((externals g)
          [i := (externals g ! i)\<lparr>extAllowList := extAllowList (externals g ! i) @ [name]\<rparr>]) =
        map extPkg (externals g)"
    by (simp add: map_update) (metis list_update_id map_update)
  with Some show ?thesis
    by (simp add: allowExternal_def grows_def)
qed

lemma lookupExternal_declared:
  "lookupExternal exts i n = Some x \<Longrightarrow>
   nName n \<in> \<Union> (set (map (\<lambda>p. fst ` set (pkgScope p)) (map extPkg exts)))"
proof (induction exts arbitrary: i)
  case Nil
  then show ?case by simp
next
  case (Cons e es)
  show ?case
  proof (cases "Lookup (extPkg e) (nName n)")
    case None
    with Cons.prems have "lookupExternal es (Suc i) n = Some x" by simp
    from Cons.IH[OF this] show ?thesis by simp
  next
    case (Some obj)
    then have "nName n \<in> fst ` set (pkgScope (extPkg e))"
      by (auto simp: Lookup_def dest: map_of_SomeD intro: rev_image_eqI)
    then show ?thesis by simp
  qed
qed

lemma lookupNamedReference_declared:
  assumes "lookupNamedReference g n = Some x"
  shows "nName n \<in> declared g"
proof (cases "Lookup (pkg g) (nName n)")
  case None
  with assms obtain y where "lookupExternal (externals g) 0 n = Some y"
    by (auto simp: lookupNamedReference_def)
  from lookupExternal_declared[OF this] show ?thesis
    by (simp add: declared_def)
next
  case (Some obj)
  then have "nName n \<in> fst ` set (pkgScope (pkg g))"
    by (auto simp: Lookup_def dest: map_of_SomeD intro: rev_image_eqI)
  then show ?thesis by (simp add: declared_def)
qed

lemma grows_resolved:
  "lookupNamedReference g n = Some x \<Longrightarrow>
   grows g (allowExternal (allowSelf g (nName n)) objGen (nName n))"
  by (blast intro: grows_trans grows_allowSelf grows_allowExternal
      lookupNamedReference_declared)

lemma grows_typeParam: "typeParam g ty = (r, g') \<Longrightarrow> grows g g'"
  by (auto simp: typeParam_def Let_def grows_def split: if_splits option.splits prod.splits
      bool.splits)

text \<open>A named type that is not mapped by hand, does not resolve and is no struct is mapped
  as its underlying type.\<close>

lemma typescriptType_defer:
  assumes "wellKnown (nString n) = None"
    and "(if MatchString (nString n)
          then case underlying of Struct x \<Rightarrow> Some x | _ \<Rightarrow> None else None) = None"
    and "lookupNamedReference g n = None"
    and "\<nexists>fs. underlying = Struct fs"
  shows "typescriptType g (Named n underlying targs) =
     (case typescriptType g underlying of
        (Inl err, g1) \<Rightarrow> (Inl (Errorf ''named underlying: %w'' [] (Some err)), g1)
      | (Inr ts, g1) \<Rightarrow> (Inr (likelyEnum n ts), g1))"
  using assms
  by (subst typescriptType.simps(6)) (cases underlying; simp del: typescriptType.simps)

text \<open>The mapper and its loop over type arguments, by the induction that follows their
  recursion.\<close>

lemma grows_typescriptType_typeArgs:
  "typescriptType g ty = (r, g') \<Longrightarrow> grows g g'"
  "typeArgs g oname tys acc = (r', g') \<Longrightarrow> grows g g'"
proof (induction g ty and g oname tys acc arbitrary: r g' and r' g'
    rule: typescriptType_typeArgs.induct)
  case (1 g bs)
  then show ?case by (simp add: grows_refl)
next
  case (2 g fs)
  then show ?case by (simp add: grows_refl)
next
  case (3 g key elem)
  obtain rk gk where k: "typescriptType g key = (rk, gk)"
    by (cases "typescriptType g key")
  have gk: "grows g gk" using "3.IH"(1)[OF k] .
  show ?case
  proof (cases rk)
    case (Inl e)
    with "3.prems" k gk show ?thesis by simp
  next
    case (Inr keyType)
    obtain re ge where e: "typescriptType gk elem = (re, ge)"
      by (cases "typescriptType gk elem")
    have "grows gk ge" using "3.IH"(2)[OF k[symmetric] Inr e] .
    with gk have "grows g ge" by (rule grows_trans)
    with "3.prems" k Inr e show ?thesis by (cases re) simp_all
  qed
next
  case (4 g elem)
  show ?case
  proof (cases "elemIsByte elem")
    case True
    with "4.prems" show ?thesis by (simp add: grows_refl)
  next
    case False
    obtain re ge where e: "typescriptType g elem = (re, ge)"
      by (cases "typescriptType g elem")
    from "4.IH"[OF False e] "4.prems" False e show ?thesis by (cases re) simp_all
  qed
next
  case (5 g elem)
  show ?case
  proof (cases "elemIsByte elem")
    case True
    with "5.prems" show ?thesis by (simp add: grows_refl)
  next
    case False
    obtain re ge where e: "typescriptType g elem = (re, ge)"
      by (cases "typescriptType g elem")
    from "5.IH"[OF False e] "5.prems" False e show ?thesis by (cases re) simp_all
  qed
next
  case (6 g n underlying targs)
  show ?case
  proof (cases "wellKnown (nString n)")
    case (Some t)
    with "6.prems" show ?thesis by (simp add: grows_refl)
  next
    case wk: None
    show ?thesis
    proof (cases "if MatchString (nString n)
                  then case underlying of Struct x \<Rightarrow> Some x | _ \<Rightarrow> None else None")
      case (Some fs)
      show ?thesis
      proof (cases fs)
        case Nil
        with "6.prems" wk Some show ?thesis by (simp add: grows_refl)
      next
        case (Cons ft fts)
        with "6.prems" wk Some have "typescriptType g (snd ft) = (r, g')" by simp
        with "6.IH"(13)[OF wk Some Cons] show ?thesis .
      qed
    next
      case ms: None
      show ?thesis
      proof (cases "lookupNamedReference g n")
        case (Some x)
        obtain obj objGen where x: "x = (obj, objGen)" by (cases x)
        define g1 where "g1 = allowExternal (allowSelf g (nName n)) objGen (nName n)"
        have g1: "grows g g1"
          unfolding g1_def using Some by (rule grows_resolved)
        show ?thesis
        proof (cases "targs = []")
          case True
          with "6.prems" wk ms Some x g1 show ?thesis by (simp add: g1_def)
        next
          case False
          obtain ra ga where a: "typeArgs g1 (objNameOf (nPkgName n) (nName n)) targs ([], [], []) = (ra, ga)"
            by (cases "typeArgs g1 (objNameOf (nPkgName n) (nName n)) targs ([], [], [])")
          have "grows g1 ga"
            using "6.IH"(12)[OF wk ms Some x[symmetric] g1_def refl False a] .
          with g1 have "grows g ga" by (rule grows_trans)
          with "6.prems" wk ms Some x False a show ?thesis
            by (cases ra) (auto simp: g1_def Let_def split: prod.splits)
        qed
      next
        case lk: None
        show ?thesis
        proof (cases "\<exists>fs. underlying = Struct fs")
          case True
          with "6.prems" wk ms lk show ?thesis by (auto simp: grows_refl)
        next
          case False
          obtain ru gu where u: "typescriptType g underlying = (ru, gu)"
            by (cases "typescriptType g underlying")
          have "grows g gu"
            using False u "6.IH"(1-11)[OF wk ms lk] by (cases underlying) blast+
          moreover have "g' = gu"
            using "6.prems" u unfolding typescriptType_defer[OF wk ms lk False]
            by (cases ru) simp_all
          ultimately show ?thesis by simp
        qed
      qed
    qed
  qed
next
  case (7 g elem)
  obtain re ge where e: "typescriptType g elem = (re, ge)"
    by (cases "typescriptType g elem")
  from "7.IH"[OF e] "7.prems" e show ?case by (cases re) simp_all
next
  case (8 g isEmpty embeddeds)
  then show ?case by (simp add: grows_refl)
next
  case (9 g ty)
  then show ?case by (simp add: grows_typeParam)
next
  case (10 g terms)
  then show ?case by (simp add: grows_refl)
next
  case (11 g)
  then show ?case by (simp add: grows_refl)
next
  case (12 g s)
  then show ?case by (simp add: grows_refl)
next
  case (13 g oname acc)
  then show ?case by (simp add: grows_refl)
next
  case (14 g oname a as genericConstraints genericNames genericTypes)
  obtain ra ga where a: "typescriptType g a = (ra, ga)"
    by (cases "typescriptType g a")
  have ga: "grows g ga" using "14.IH"(1)[OF a] .
  show ?case
  proof (cases ra)
    case (Inl e)
    with "14.prems" a ga show ?thesis by simp
  next
    case (Inr genType)
    from "14.prems" a Inr have
      "typeArgs ga oname as
         (genericConstraints @ [ValueType genType],
          (case a of TypeParam param \<Rightarrow> genericNames @ [tpName param]
           | _ \<Rightarrow> genericNames @ [ValueType genType]),
          (case a of TypeParam param \<Rightarrow> AList.update (tpName param) (ValueType genType) genericTypes
           | _ \<Rightarrow> genericTypes)) = (r', g')"
      by simp
    from "14.IH"(2)[OF a[symmetric] Inr this] ga show ?thesis
      by (blast intro: grows_trans)
  qed
qed

text \<open>The builders and their iterations above the mapper.\<close>

lemma grows_structFields: "structFields g st acc = (r, g') \<Longrightarrow> grows g g'"
proof (induction g st acc arbitrary: r g' rule: structFields.induct)
  case (1 g acc)
  then show ?case by (simp add: grows_refl)
next
  case (2 g field ty rest flds genericsUsed)
  show ?case
  proof (cases "isExtended field")
    case True
    with "2.prems" "2.IH"(1) show ?thesis by simp
  next
    case ne: False
    show ?thesis
    proof (cases "structtagParse (fTag field)")
      case None
      with "2.prems" ne show ?thesis by (simp add: grows_refl)
    next
      case (Some tags)
      show ?thesis
      proof (cases "fExported field")
        case False
        with "2.prems" ne Some "2.IH"(2)[OF ne Some] show ?thesis by simp
      next
        case ex: True
        show ?thesis
        proof (cases "nameIsDash (tagsGet tags ''json'')")
          case True
          with "2.prems" ne Some ex "2.IH"(3)[OF ne Some] show ?thesis by simp
        next
          case nd: False
          obtain rt gt where t: "typescriptType g ty = (rt, gt)"
            by (cases "typescriptType g ty")
          have gt: "grows g gt" using t by (rule grows_typescriptType_typeArgs(1))
          show ?thesis
          proof (cases rt)
            case (Inl e)
            with "2.prems" ne Some ex nd t gt show ?thesis by simp
          next
            case (Inr tsType)
            show ?thesis
            proof (cases "nameIsDash (tagsGet tags ''typescript'')")
              case True
              with "2.prems" ne Some ex nd t Inr
              have "structFields gt rest (flds, genericsUsed) = (r, g')" by simp
              from "2.IH"(4)[OF ne Some _ nd t[symmetric] Inr True this] ex gt
              show ?thesis by (blast intro: grows_trans)
            next
              case False
              with "2.prems" ne Some ex nd t Inr
              have "structFields gt rest
                      (flds @ fieldLines (jsonNameOf field (tagsGet tags ''json''))
                                (firstOptionIs (tagsGet tags ''json'') ''omitempty'')
                                (applyTypescriptTag (tagsGet tags ''typescript'') tsType),
                       gatherGenerics genericsUsed
                         (applyTypescriptTag (tagsGet tags ''typescript'') tsType)) = (r, g')"
                by (simp add: Let_def)
              from "2.IH"(5)[OF ne Some _ nd t[symmetric] Inr False refl this] ex gt
              show ?thesis by (blast intro: grows_trans)
            qed
          qed
        qed
      qed
    qed
  qed
qed

lemma grows_unionTerms: "unionTerms g obj st tms acc = (r, g') \<Longrightarrow> grows g g'"
proof (induction g obj st tms acc arbitrary: r g' rule: unionTerms.induct)
  case (1 g obj st acc)
  then show ?case by (simp add: grows_refl)
next
  case (2 g obj st tm tms allTypes optional)
  obtain rt gt where t: "typescriptType g tm = (rt, gt)"
    by (cases "typescriptType g tm")
  have gt: "grows g gt" using t by (rule grows_typescriptType_typeArgs(1))
  show ?case
  proof (cases rt)
    case (Inl e)
    with "2.prems" t gt show ?thesis by simp
  next
    case (Inr scriptType)
    with "2.prems" t have
      "unionTerms gt obj st tms
         (allTypes @ [ValueType scriptType], optional \<or> Optional scriptType) = (r, g')"
      by simp
    from "2.IH"[OF t[symmetric] Inr this] gt show ?thesis
      by (blast intro: grows_trans)
  qed
qed

lemma grows_buildUnion: "buildUnion g obj st = (r, g') \<Longrightarrow> grows g g'"
proof -
  assume a: "buildUnion g obj st = (r, g')"
  obtain ru gu where u: "unionTerms g obj st st ([], False) = (ru, gu)"
    by (cases "unionTerms g obj st st ([], False)")
  from a u have "g' = gu"
    by (cases ru) (auto simp: buildUnion_def Let_def split: prod.splits)
  with grows_unionTerms[OF u] show ?thesis by simp
qed

lemma grows_buildStruct: "buildStruct g obj st = (r, g') \<Longrightarrow> grows g g'"
proof -
  assume a: "buildStruct g obj st = (r, g')"
  obtain rf gf where f: "structFields g st ([], []) = (rf, gf)"
    by (cases "structFields g st ([], [])")
  obtain rs gs where s: "buildStructState g obj st = (rs, gs)"
    by (cases "buildStructState g obj st")
  from s f have "gs = gf"
    by (cases rf)
       (auto simp: buildStructState_def Let_def
             split: prod.splits if_splits option.splits gotype.splits sum.splits)
  moreover from a s have "g' = gs"
    by (cases rs) (auto simp: buildStruct_def)
  ultimately show ?thesis using grows_structFields[OF f] by simp
qed

lemma grows_containerAlias: "containerAlias g m obj ty = (r, g') \<Longrightarrow> grows g g'"
proof -
  assume a: "containerAlias g m obj ty = (r, g')"
  obtain rt gt where t: "typescriptType g ty = (rt, gt)"
    by (cases "typescriptType g ty")
  from a t have "g' = gt"
    by (cases rt) (auto simp: containerAlias_def)
  with grows_typescriptType_typeArgs(1)[OF t] show ?thesis by simp
qed

lemma grows_generateObject: "generateObject g m obj ty = (r, g') \<Longrightarrow> grows g g'"
proof -
  assume a: "generateObject g m obj ty = (r, g')"
  show ?thesis
  proof (cases "oKind obj")
    case TypeName
    show ?thesis
    proof (cases ty)
      case (Named named underNamed targs)
      show ?thesis
      proof (cases underNamed)
        case (Struct fs)
        obtain rb gb where b: "buildStruct g obj fs = (rb, gb)"
          by (cases "buildStruct g obj fs")
        from a TypeName Named Struct b have "g' = gb"
          by (cases rb) (simp_all add: generateObject_def Let_def)
        with grows_buildStruct[OF b] show ?thesis by simp
      next
        case (Interface isEmpty embeddeds)
        show ?thesis
        proof (cases embeddeds)
          case Nil
          with a TypeName Named Interface show ?thesis
            by (simp add: generateObject_def Let_def grows_refl)
        next
          case (Cons embedded rest)
          show ?thesis
          proof (cases rest)
            case Nil
            obtain rb gb where b:
              "buildUnion g obj (case embedded of Union terms \<Rightarrow> terms | _ \<Rightarrow> [embedded]) = (rb, gb)"
              by (cases "buildUnion g obj (case embedded of Union terms \<Rightarrow> terms | _ \<Rightarrow> [embedded])")
            from a TypeName Named Interface Cons Nil b have "g' = gb"
              by (cases rb) (simp_all add: generateObject_def Let_def)
            with grows_buildUnion[OF b] show ?thesis by simp
          next
            case (Cons e2 rest2)
            with a TypeName Named Interface \<open>embeddeds = embedded # rest\<close>
            show ?thesis
              by (simp add: generateObject_def Let_def grows_refl)
          qed
        qed
      next
        case (Map k v)
        with a TypeName Named
        have "containerAlias g m obj underNamed = (r, g')"
          by (simp add: generateObject_def Let_def)
        then show ?thesis by (rule grows_containerAlias)
      next
        case (Array e)
        with a TypeName Named
        have "containerAlias g m obj underNamed = (r, g')"
          by (simp add: generateObject_def Let_def)
        then show ?thesis by (rule grows_containerAlias)
      next
        case (Slice e)
        with a TypeName Named
        have "containerAlias g m obj underNamed = (r, g')"
          by (simp add: generateObject_def Let_def)
        then show ?thesis by (rule grows_containerAlias)
      qed (use a TypeName Named in \<open>simp_all add: generateObject_def Let_def grows_refl\<close>)
    qed (use a TypeName in \<open>simp_all add: generateObject_def Let_def grows_refl\<close>)
  next
    case (Const v)
    with a show ?thesis
      by (cases ty) (simp_all add: generateObject_def Let_def grows_refl)
  qed (use a in \<open>simp_all add: generateObject_def Let_def grows_refl\<close>)
qed

lemma grows_generateOne: "generateOne g m obj = (r, g') \<Longrightarrow> grows g g'"
  by (auto simp: generateOne_def grows_refl split: option.splits if_splits
      dest: grows_generateObject)

lemma grows_generateNames: "generateNames g m ns = (r, g') \<Longrightarrow> grows g g'"
proof (induction g m ns arbitrary: r g' rule: generateNames.induct)
  case (1 g m)
  then show ?case by (simp add: grows_refl)
next
  case (2 g m n ns)
  show ?case
  proof (cases "Lookup (pkg g) n")
    case None
    with "2.prems" "2.IH"(1) show ?thesis by simp
  next
    case (Some obj)
    obtain ro go where o: "generateOne g m obj = (ro, go)"
      by (cases "generateOne g m obj")
    have go: "grows g go" using o by (rule grows_generateOne)
    show ?thesis
    proof (cases ro)
      case (Inl e)
      with "2.prems" Some o go show ?thesis by simp
    next
      case (Inr m1)
      with "2.prems" Some o have "generateNames go m1 ns = (r, g')" by simp
      from "2.IH"(2)[OF Some o[symmetric] Inr this] go show ?thesis
        by (blast intro: grows_trans)
    qed
  qed
qed

lemma grows_generateAll: "generateAll g = (r, g') \<Longrightarrow> grows g g'"
proof -
  assume a: "generateAll g = (r, g')"
  define m where "m =
     \<lparr>Structs = [], Generics = [], Enums = [], EnumConsts = [],
      IgnoredTypes = fold (\<lambda>text. addNames (directive ''@typescript-ignore'' text))
                       (pkgComments (pkg g)) [],
      AllowedTypes = fold (\<lambda>text. addNames (directive ''@typescript-generate'' text))
                       (pkgComments (pkg g)) (addNames (map TrimSpace (allowList g)) [])\<rparr>"
  obtain rn gn where n: "generateNames g m (Names (pkg g)) = (rn, gn)"
    by (cases "generateNames g m (Names (pkg g))")
  from a n have "g' = gn"
    by (cases rn) (simp_all add: generateAll_def Let_def m_def)
  with grows_generateNames[OF n] show ?thesis by simp
qed

subsection \<open>The loop of main\<close>

lemma finite_declared: "finite (declared g)"
  by (simp add: declared_def)

lemma grows_measure:
  assumes "grows g g'" and "length (allowList g') \<noteq> length (allowList g)"
  shows "card (declared g' - set (allowList g')) < card (declared g - set (allowList g))"
proof -
  from assms(1) obtain added where a: "allowList g' = allowList g @ added"
    "set added \<inter> set (allowList g) = {}" "set added \<subseteq> declared g"
    by (auto simp: grows_def)
  from assms(2) a(1) obtain x where x: "x \<in> set added"
    by (cases added) auto
  have d: "declared g' = declared g"
    using assms(1) by (rule grows_declared)
  have "declared g' - set (allowList g') \<subset> declared g - set (allowList g)"
    using a x unfolding d by auto
  then show ?thesis
    by (intro psubset_card_mono) (simp_all add: finite_declared)
qed

text \<open>The loop returns, whatever the generator: every pass that does not end it adds a
  resolvable name that the allow list did not hold. A run that ends without an error ends
  with a pass that left the length of the allow list as it was.\<close>

lemma generateExternal_returns:
  "\<exists>n r ext'. generateExternal k ext = Some (n, r, ext') \<and> grows ext ext' \<and>
     n \<le> k + Suc (card (declared ext - set (allowList ext))) \<and>
     (case r of
        Inl err \<Rightarrow> True
      | Inr ts \<Rightarrow> \<exists>ext0. generateAll ext0 = (Inr ts, ext') \<and>
                         length (allowList ext') = length (allowList ext0))"
proof (induction "card (declared ext - set (allowList ext))" arbitrary: k ext rule: less_induct)
  case less
  obtain r ext1 where p: "generateAll ext = (r, ext1)"
    by (cases "generateAll ext")
  have g1: "grows ext ext1" using p by (rule grows_generateAll)
  show ?case
  proof (cases r)
    case (Inl e)
    with p g1 show ?thesis
      by (subst generateExternal.simps) simp
  next
    case (Inr ts)
    show ?thesis
    proof (cases "length (allowList ext1) \<noteq> length (allowList ext)")
      case False
      then have "\<exists>ext0. generateAll ext0 = (Inr ts, ext1) \<and>
                         length (allowList ext1) = length (allowList ext0)"
        using p Inr by auto
      with False p Inr g1 show ?thesis
        by (subst generateExternal.simps) simp
    next
      case True
      have m: "card (declared ext1 - set (allowList ext1)) < card (declared ext - set (allowList ext))"
        using g1 True by (rule grows_measure)
      from less[OF m, of "Suc k"] obtain n r' ext' where
        s: "generateExternal (Suc k) ext1 = Some (n, r', ext')" "grows ext1 ext'"
           "n \<le> Suc k + Suc (card (declared ext1 - set (allowList ext1)))"
           "(case r' of
               Inl err \<Rightarrow> True
             | Inr ts \<Rightarrow> \<exists>ext0. generateAll ext0 = (Inr ts, ext') \<and>
                         length (allowList ext') = length (allowList ext0))"
        by blast
      have "generateExternal k ext = Some (n, r', ext')"
        using p Inr True s(1) by (subst generateExternal.simps) simp
      moreover have "grows ext ext'" using g1 s(2) by (rule grows_trans)
      moreover have "n \<le> k + Suc (card (declared ext - set (allowList ext)))"
        using s(3) m by simp
      ultimately show ?thesis using s(4) by blast
    qed
  qed
qed

text \<open>C2: for every generator the loop of \<^verbatim>\<open>main\<close> returns, after at most one pass more
  than there are names the generator can resolve (for an external generator of \<^verbatim>\<open>main\<close>, the
  declarations of its scope). The allow list only gets longer, by distinct resolvable names
  appended at its end, and a run that ends without an error ends with a pass that left the
  length of the allow list unchanged.\<close>

theorem regeneration_loop_terminates:
  "\<exists>passes result ext'.
     generateExternal 0 ext = Some (passes, result, ext') \<and>
     passes \<le> Suc (card (declared ext)) \<and>
     (\<exists>added. allowList ext' = allowList ext @ added \<and> distinct added \<and>
              set added \<subseteq> declared ext) \<and>
     (case result of
        Inl err \<Rightarrow> True
      | Inr ts \<Rightarrow> \<exists>ext0. generateAll ext0 = (Inr ts, ext') \<and>
                         length (allowList ext') = length (allowList ext0))"
proof -
  from generateExternal_returns[of 0 ext] obtain n r ext' where
    s: "generateExternal 0 ext = Some (n, r, ext')" "grows ext ext'"
       "n \<le> 0 + Suc (card (declared ext - set (allowList ext)))"
       "(case r of
           Inl err \<Rightarrow> True
         | Inr ts \<Rightarrow> \<exists>ext0. generateAll ext0 = (Inr ts, ext') \<and>
                         length (allowList ext') = length (allowList ext0))"
    by blast
  have "card (declared ext - set (allowList ext)) \<le> card (declared ext)"
    by (intro card_mono) (simp_all add: finite_declared)
  with s(3) have b: "n \<le> Suc (card (declared ext))" by simp
  from s(2) have a: "\<exists>added. allowList ext' = allowList ext @ added \<and> distinct added \<and>
              set added \<subseteq> declared ext"
    by (auto simp: grows_def)
  from s(1) b a s(4) show ?thesis by blast
qed

lemmas pass_defs =
  generateAll_def generateOne_def generateObject_def Names_def addNames_def directive_def
  TrimSpace_def isSpace_def enumCodeBlocks_def enumCodeBlock_def enumConstsOf_def pluralName_def
  HasSuffix_def Title_def toUpper_def toLower_def containerAlias_def

lemmas health_defs =
  healthGenerator_def healthScope_def messageFields_def healthTypes_def healthEnums_def

lemma health_first_pass:
  "generateAll (healthGenerator [''Message'']) =
     (Inr \<lparr>Types = healthTypes, Enums_t = [], Generics_t = []\<rparr>,
      healthGenerator [''Message'', ''Code''])"
  by (simp add: health_defs example_defs builder_defs pass_defs)

lemma health_second_pass:
  "generateAll (healthGenerator [''Message'', ''Code'']) =
     (Inr \<lparr>Types = healthTypes, Enums_t = healthEnums, Generics_t = []\<rparr>,
      healthGenerator [''Message'', ''Code''])"
  by (simp add: health_defs example_defs builder_defs pass_defs)

theorem regeneration_loop_terminates_witness:
  "generateExternal 0 (healthGenerator [''Message'']) =
     Some (2, Inr \<lparr>Types = healthTypes, Enums_t = healthEnums, Generics_t = []\<rparr>,
           healthGenerator [''Message'', ''Code''])
   \<and> (2::nat) \<le> Suc (card (declared (healthGenerator [''Message''])))
   \<and> declared (healthGenerator [''Message'']) = {''Severity'', ''Message'', ''Code''}"
proof -
  have l: "allowList (healthGenerator [''Message'', ''Code'']) = [''Message'', ''Code'']"
    "allowList (healthGenerator [''Message'']) = [''Message'']"
    by (simp_all add: healthGenerator_def)
  have 2: "generateExternal (Suc 0) (healthGenerator [''Message'', ''Code'']) =
     Some (2, Inr \<lparr>Types = healthTypes, Enums_t = healthEnums, Generics_t = []\<rparr>,
           healthGenerator [''Message'', ''Code''])"
    by (subst generateExternal.simps) (simp add: health_second_pass numeral_2_eq_2)
  have 1: "generateExternal 0 (healthGenerator [''Message'']) =
     Some (2, Inr \<lparr>Types = healthTypes, Enums_t = healthEnums, Generics_t = []\<rparr>,
           healthGenerator [''Message'', ''Code''])"
    by (subst generateExternal.simps) (simp add: health_first_pass l 2)
  have d: "declared (healthGenerator [''Message'']) = {''Severity'', ''Message'', ''Code''}"
    by (simp add: declared_def healthGenerator_def generatorOf_def healthScope_def)
  from regeneration_loop_terminates[of "healthGenerator [''Message'']"] 1 d show ?thesis
    by simp
qed

subsection \<open>Scalar aliases without constants, through a whole pass\<close>

lemma generateAll_firstMaps:
  "generateAll g =
     (case generateNames g (firstMaps g) (Names (pkg g)) of
        (Inl err, g1) \<Rightarrow> (Inl err, g1)
      | (Inr m, g1) \<Rightarrow>
          (Inr \<lparr>Types = Structs m, Enums_t = enumCodeBlocks m,
                Generics_t = fold (\<lambda>(n, value) gens.
                                     if value \<noteq> [] then AList.update n value gens else gens)
                               (rangeOf (builtins g1)) (Generics m)\<rparr>, g1))"
  by (auto simp: generateAll_def firstMaps_def Let_def split: prod.splits sum.splits)

text \<open>What one declaration does to the maps.\<close>

lemma containerAlias_maps:
  "containerAlias g m obj ty = (Inr m', g') \<Longrightarrow>
   IgnoredTypes m' = IgnoredTypes m \<and> AllowedTypes m' = AllowedTypes m \<and>
   Enums m' = Enums m \<and> EnumConsts m' = EnumConsts m"
  by (cases "typescriptType g ty")
     (auto simp: containerAlias_def split: sum.splits)

lemma generateObject_maps:
  assumes a: "generateObject g m obj ty = (Inr m', g')"
  shows "IgnoredTypes m' = IgnoredTypes m \<and> AllowedTypes m' = AllowedTypes m \<and>
     (Enums m' = Enums m \<or> Enums m' = AList.update (objName obj) obj (Enums m)) \<and>
     (EnumConsts m' = EnumConsts m \<or>
      (\<exists>c named underNamed targs.
         oKind obj = Const c \<and> ty = Named named underNamed targs \<and>
         EnumConsts m' =
           AList.update (objNameOf (nPkgName named) (nName named))
             (enumConstsOf m (objNameOf (nPkgName named) (nName named)) @ [c]) (EnumConsts m)))"
proof (cases "oKind obj")
  case TypeName
  show ?thesis
  proof (cases ty)
    case (Named named underNamed targs)
    show ?thesis
    proof (cases underNamed)
      case (Struct fs)
      obtain rb gb where b: "buildStruct g obj fs = (rb, gb)"
        by (cases "buildStruct g obj fs")
      from a TypeName Named Struct b show ?thesis
        by (cases rb) (auto simp: generateObject_def Let_def)
    next
      case (Interface isEmpty embeddeds)
      show ?thesis
      proof (cases embeddeds)
        case Nil
        with a TypeName Named Interface show ?thesis
          by (simp add: generateObject_def Let_def)
      next
        case (Cons embedded rest)
        show ?thesis
        proof (cases rest)
          case Nil
          obtain rb gb where b:
            "buildUnion g obj (case embedded of Union terms \<Rightarrow> terms | _ \<Rightarrow> [embedded]) = (rb, gb)"
            by (cases "buildUnion g obj (case embedded of Union terms \<Rightarrow> terms | _ \<Rightarrow> [embedded])")
          from a TypeName Named Interface Cons Nil b show ?thesis
            by (cases rb) (auto simp: generateObject_def Let_def)
        next
          case (Cons e2 rest2)
          with a TypeName Named Interface \<open>embeddeds = embedded # rest\<close>
          show ?thesis
            by (simp add: generateObject_def Let_def)
        qed
      qed
    next
      case (Map k v)
      with a TypeName Named
      have "containerAlias g m obj underNamed = (Inr m', g')"
        by (simp add: generateObject_def Let_def)
      from containerAlias_maps[OF this] show ?thesis by simp
    next
      case (Array e)
      with a TypeName Named
      have "containerAlias g m obj underNamed = (Inr m', g')"
        by (simp add: generateObject_def Let_def)
      from containerAlias_maps[OF this] show ?thesis by simp
    next
      case (Slice e)
      with a TypeName Named
      have "containerAlias g m obj underNamed = (Inr m', g')"
        by (simp add: generateObject_def Let_def)
      from containerAlias_maps[OF this] show ?thesis by simp
    qed (use a TypeName Named in \<open>auto simp: generateObject_def Let_def\<close>)
  qed (use a TypeName in \<open>simp_all add: generateObject_def Let_def\<close>)
next
  case (Const v)
  with a show ?thesis
    by (cases ty) (auto simp: generateObject_def Let_def)
qed (use a in \<open>auto simp: generateObject_def Let_def\<close>)

lemma generateOne_maps:
  assumes a: "generateOne g m obj = (Inr m', g')"
  shows "IgnoredTypes m' = IgnoredTypes m \<and> AllowedTypes m' = AllowedTypes m \<and>
     (Enums m' = Enums m \<or> Enums m' = AList.update (objName obj) obj (Enums m)) \<and>
     (EnumConsts m' = EnumConsts m \<or>
      (\<exists>k c. enumTypeOf obj = Some k \<and>
         EnumConsts m' = AList.update k (enumConstsOf m k @ [c]) (EnumConsts m)))"
proof (cases "oType obj")
  case None
  with a show ?thesis by (simp add: generateOne_def)
next
  case (Some ty)
  show ?thesis
  proof (cases "generateOne g m obj = generateObject g m obj ty")
    case False
    with Some have "generateOne g m obj = (Inr m, g)"
      by (auto simp: generateOne_def split: if_splits)
    with a show ?thesis by simp
  next
    case True
    with a have "generateObject g m obj ty = (Inr m', g')" by simp
    from generateObject_maps[OF this] Some show ?thesis
      by (auto simp: enumTypeOf_def)
  qed
qed

text \<open>A scalar alias never makes \<^verbatim>\<open>generateOne\<close> fail, and one that passes the filter is
  registered in \<^verbatim>\<open>m.Enums\<close>.\<close>

lemma generateOne_scalar:
  assumes "oKind obj = TypeName" and "oType obj = Some (Named named (Basic b) targs)"
  shows "\<exists>m'. generateOne g m obj = (Inr m', g)"
  using assms by (simp add: generateOne_def generateObject_def)

lemma generateOne_registers:
  assumes "oKind obj = TypeName" and "oType obj = Some (Named named (Basic b) targs)"
    and "oName obj \<notin> set (IgnoredTypes m)"
    and "\<not> ((AllowedTypes m \<noteq> [] \<or> onlyOptIn g) \<and> oName obj \<notin> set (AllowedTypes m))"
  shows "generateOne g m obj = (Inr (m\<lparr>Enums := AList.update (objName obj) obj (Enums m)\<rparr>), g)"
  using assms by (auto simp: generateOne_def generateObject_def)

text \<open>Through the loop over the names: the two sets stay, the constants of an enum that no
  visited object is filed under stay, an enum that is registered stays registered, and an enum
  that the loop visits gets registered.\<close>

lemma generateNames_sets:
  "generateNames g m ns = (Inr m', g') \<Longrightarrow>
   IgnoredTypes m' = IgnoredTypes m \<and> AllowedTypes m' = AllowedTypes m"
proof (induction g m ns arbitrary: m' g' rule: generateNames.induct)
  case (1 g m)
  then show ?case by simp
next
  case (2 g m n ns)
  show ?case
  proof (cases "Lookup (pkg g) n")
    case None
    with "2.prems" "2.IH"(1) show ?thesis by simp
  next
    case (Some obj)
    obtain ro go where o: "generateOne g m obj = (ro, go)"
      by (cases "generateOne g m obj")
    show ?thesis
    proof (cases ro)
      case (Inl e)
      with "2.prems" Some o show ?thesis by simp
    next
      case (Inr m1)
      with "2.prems" Some o have r: "generateNames go m1 ns = (Inr m', g')" by simp
      from "2.IH"(2)[OF Some o[symmetric] Inr r] generateOne_maps[OF o[unfolded Inr]]
      show ?thesis by simp
    qed
  qed
qed

lemma generateNames_consts:
  assumes "generateNames g m ns = (Inr m', g')"
    and "\<forall>n\<in>set ns. \<forall>obj. Lookup (pkg g) n = Some obj \<longrightarrow> enumTypeOf obj \<noteq> Some k"
  shows "enumConstsOf m' k = enumConstsOf m k"
  using assms
proof (induction g m ns arbitrary: m' g' rule: generateNames.induct)
  case (1 g m)
  then show ?case by simp
next
  case (2 g m n ns)
  have rest: "\<forall>n\<in>set ns. \<forall>obj. Lookup (pkg g) n = Some obj \<longrightarrow> enumTypeOf obj \<noteq> Some k"
    using "2.prems"(2) by simp
  show ?case
  proof (cases "Lookup (pkg g) n")
    case None
    with "2.prems"(1) have "generateNames g m ns = (Inr m', g')" by simp
    from "2.IH"(1)[OF None this rest] show ?thesis .
  next
    case (Some obj)
    obtain ro go where o: "generateOne g m obj = (ro, go)"
      by (cases "generateOne g m obj")
    have p: "pkg go = pkg g"
      using grows_generateOne[OF o] by (simp add: grows_def)
    show ?thesis
    proof (cases ro)
      case (Inl e)
      with "2.prems" Some o show ?thesis by simp
    next
      case (Inr m1)
      with "2.prems" Some o have r: "generateNames go m1 ns = (Inr m', g')" by simp
      have "enumConstsOf m' k = enumConstsOf m1 k"
        using "2.IH"(2)[OF Some o[symmetric] Inr r] rest p by simp
      moreover have "enumTypeOf obj \<noteq> Some k"
        using "2.prems"(2) Some by simp
      with generateOne_maps[OF o[unfolded Inr]] have "enumConstsOf m1 k = enumConstsOf m k"
        by (auto simp: enumConstsOf_def update_conv')
      ultimately show ?thesis by simp
    qed
  qed
qed

lemma generateNames_keeps:
  assumes "generateNames g m ns = (Inr m', g')"
    and "\<forall>n\<in>set ns. \<forall>obj'. Lookup (pkg g) n = Some obj' \<longrightarrow>
           objName obj' = objName obj \<longrightarrow> obj' = obj"
    and "map_of (Enums m) (objName obj) = Some obj"
  shows "map_of (Enums m') (objName obj) = Some obj"
  using assms
proof (induction g m ns arbitrary: m' g' rule: generateNames.induct)
  case (1 g m)
  then show ?case by simp
next
  case (2 g m n ns)
  have rest: "\<forall>n\<in>set ns. \<forall>obj'. Lookup (pkg g) n = Some obj' \<longrightarrow>
           objName obj' = objName obj \<longrightarrow> obj' = obj"
    using "2.prems"(2) by simp
  show ?case
  proof (cases "Lookup (pkg g) n")
    case None
    with "2.prems"(1) have "generateNames g m ns = (Inr m', g')" by simp
    from "2.IH"(1)[OF None this rest "2.prems"(3)] show ?thesis .
  next
    case (Some obj')
    obtain ro go where o: "generateOne g m obj' = (ro, go)"
      by (cases "generateOne g m obj'")
    have p: "pkg go = pkg g"
      using grows_generateOne[OF o] by (simp add: grows_def)
    show ?thesis
    proof (cases ro)
      case (Inl e)
      with "2.prems" Some o show ?thesis by simp
    next
      case (Inr m1)
      with "2.prems" Some o have r: "generateNames go m1 ns = (Inr m', g')" by simp
      have u: "objName obj' = objName obj \<Longrightarrow> obj' = obj"
        using "2.prems"(2) Some by simp
      have k: "map_of (Enums m1) (objName obj) = Some obj"
        using generateOne_maps[OF o[unfolded Inr]] "2.prems"(3) u
        by (auto simp: update_conv')
      from rest p have rest': "\<forall>n\<in>set ns. \<forall>obj'. Lookup (pkg go) n = Some obj' \<longrightarrow>
           objName obj' = objName obj \<longrightarrow> obj' = obj"
        by simp
      from "2.IH"(2)[OF Some o[symmetric] Inr r rest' k] show ?thesis .
    qed
  qed
qed

lemma generateNames_registers:
  assumes "generateNames g m ns = (Inr m', g')"
    and "\<forall>n\<in>set ns. \<forall>obj'. Lookup (pkg g) n = Some obj' \<longrightarrow>
           objName obj' = objName obj \<longrightarrow> obj' = obj"
    and "name \<in> set ns" and "Lookup (pkg g) name = Some obj"
    and "oKind obj = TypeName" and "oType obj = Some (Named named (Basic b) targs)"
    and "oName obj \<notin> set (IgnoredTypes m)"
    and "\<not> ((AllowedTypes m \<noteq> [] \<or> onlyOptIn g) \<and> oName obj \<notin> set (AllowedTypes m))"
  shows "map_of (Enums m') (objName obj) = Some obj"
  using assms
proof (induction g m ns arbitrary: m' g' rule: generateNames.induct)
  case (1 g m)
  then show ?case by simp
next
  case (2 g m n ns)
  have rest: "\<forall>n\<in>set ns. \<forall>obj'. Lookup (pkg g) n = Some obj' \<longrightarrow>
           objName obj' = objName obj \<longrightarrow> obj' = obj"
    using "2.prems"(2) by simp
  show ?case
  proof (cases "Lookup (pkg g) n")
    case None
    with "2.prems"(3,4) have in_ns: "name \<in> set ns" by auto
    from None "2.prems"(1) have "generateNames g m ns = (Inr m', g')" by simp
    from "2.IH"(1)[OF None this rest in_ns "2.prems"(4,5,6,7,8)] show ?thesis .
  next
    case (Some obj')
    obtain ro go where o: "generateOne g m obj' = (ro, go)"
      by (cases "generateOne g m obj'")
    have p: "pkg go = pkg g" "onlyOptIn go = onlyOptIn g"
      using grows_generateOne[OF o] by (simp_all add: grows_def)
    show ?thesis
    proof (cases ro)
      case (Inl e)
      with "2.prems" Some o show ?thesis by simp
    next
      case (Inr m1)
      with "2.prems" Some o have r: "generateNames go m1 ns = (Inr m', g')" by simp
      from rest p have rest': "\<forall>n\<in>set ns. \<forall>obj'. Lookup (pkg go) n = Some obj' \<longrightarrow>
           objName obj' = objName obj \<longrightarrow> obj' = obj"
        by simp
      show ?thesis
      proof (cases "obj' = obj")
        case True
        from generateOne_registers[OF "2.prems"(5,6,7,8)] o True Inr
        have "m1 = m\<lparr>Enums := AList.update (objName obj) obj (Enums m)\<rparr>" by simp
        then have "map_of (Enums m1) (objName obj) = Some obj"
          by (simp add: update_conv')
        from generateNames_keeps[OF r rest' this] show ?thesis .
      next
        case False
        with Some "2.prems"(3,4) have in_ns: "name \<in> set ns" by auto
        have s: "IgnoredTypes m1 = IgnoredTypes m" "AllowedTypes m1 = AllowedTypes m"
          using generateOne_maps[OF o[unfolded Inr]] by simp_all
        have l: "Lookup (pkg go) name = Some obj" using "2.prems"(4) p by simp
        have i: "oName obj \<notin> set (IgnoredTypes m1)" using "2.prems"(7) s by simp
        have a: "\<not> ((AllowedTypes m1 \<noteq> [] \<or> onlyOptIn go) \<and> oName obj \<notin> set (AllowedTypes m1))"
          using "2.prems"(8) s p by simp
        from "2.IH"(2)[OF Some o[symmetric] Inr r rest' in_ns l "2.prems"(5,6) i a]
        show ?thesis .
      qed
    qed
  qed
qed

lemma objNameOf_inject: "objNameOf p n = objNameOf p n' \<Longrightarrow> n = n'"
  by (simp add: objNameOf_def split: if_splits)

lemma wellFormed_unique:
  assumes "wellFormed p" and "Lookup p n = Some obj" and "Lookup p n' = Some obj'"
    and "objName obj' = objName obj"
  shows "obj' = obj"
proof -
  from assms(2,3) have "(n, obj) \<in> set (pkgScope p)" "(n', obj') \<in> set (pkgScope p)"
    by (auto simp: Lookup_def dest: map_of_SomeD)
  with assms(1) have "oName obj = n" "oPkgName obj = pkgName p"
    "oName obj' = n'" "oPkgName obj' = pkgName p"
    by (auto simp: wellFormed_def list_all_iff)
  with assms(4) have "n' = n"
    by (auto simp: objName_def dest: objNameOf_inject)
  with assms(2,3) show ?thesis by simp
qed

lemma Lookup_Names: "Lookup p n = Some obj \<Longrightarrow> n \<in> set (Names p)"
  by (auto simp: Lookup_def Names_def dest: map_of_SomeD intro: rev_image_eqI)

lemma Lookup_constantsOf:
  "constantsOf p k = [] \<Longrightarrow> Lookup p n = Some obj \<Longrightarrow> enumTypeOf obj \<noteq> Some k"
  by (auto simp: constantsOf_def Lookup_def filter_empty_conv dest!: map_of_SomeD)

text \<open>C10, as the claim states it, fails: a scalar alias without constants gets its block
  only if it passes the ignore and allow tests at the head of \<^verbatim>\<open>generateOne\<close>. The
  external package \<^verbatim>\<open>health\<close> declares \<^verbatim>\<open>Severity\<close>, a scalar alias that has no
  constant and is not on the allow list of the opt-in generator: the last pass over the
  package, and so the run of the regeneration loop, ends without an error and without a
  block for \<^verbatim>\<open>HealthSeverity\<close>.\<close>

theorem scalar_alias_without_constants_counterexample:
  "Lookup (pkg (healthGenerator [''Message'', ''Code''])) ''Severity'' =
     Some (typeDecl ''health'' ''Severity'' [] (Basic (Typ String)))
   \<and> constantsOf (pkg (healthGenerator [''Message'', ''Code''])) ''HealthSeverity'' = []
   \<and> \<not> passesFilter (healthGenerator [''Message'', ''Code''])
         (typeDecl ''health'' ''Severity'' [] (Basic (Typ String)))
   \<and> generateAll (healthGenerator [''Message'', ''Code'']) =
       (Inr \<lparr>Types = healthTypes, Enums_t = healthEnums, Generics_t = []\<rparr>,
        healthGenerator [''Message'', ''Code''])
   \<and> generateExternal 0 (healthGenerator [''Message'']) =
       Some (2, Inr \<lparr>Types = healthTypes, Enums_t = healthEnums, Generics_t = []\<rparr>,
             healthGenerator [''Message'', ''Code''])
   \<and> map_of healthEnums ''HealthSeverity'' = None"
proof -
  have l: "allowList (healthGenerator [''Message'', ''Code'']) = [''Message'', ''Code'']"
    "allowList (healthGenerator [''Message'']) = [''Message'']"
    by (simp_all add: healthGenerator_def)
  have 2: "generateExternal (Suc 0) (healthGenerator [''Message'', ''Code'']) =
     Some (2, Inr \<lparr>Types = healthTypes, Enums_t = healthEnums, Generics_t = []\<rparr>,
           healthGenerator [''Message'', ''Code''])"
    by (subst generateExternal.simps) (simp add: health_second_pass numeral_2_eq_2)
  have 1: "generateExternal 0 (healthGenerator [''Message'']) =
     Some (2, Inr \<lparr>Types = healthTypes, Enums_t = healthEnums, Generics_t = []\<rparr>,
           healthGenerator [''Message'', ''Code''])"
    by (subst generateExternal.simps) (simp add: health_first_pass l 2)
  have s: "Lookup (pkg (healthGenerator [''Message'', ''Code''])) ''Severity'' =
     Some (typeDecl ''health'' ''Severity'' [] (Basic (Typ String)))"
    by (simp add: Lookup_def healthGenerator_def generatorOf_def healthScope_def)
  have c: "constantsOf (pkg (healthGenerator [''Message'', ''Code''])) ''HealthSeverity'' = []"
    by (simp add: constantsOf_def enumTypeOf_def health_defs example_defs)
  have f: "\<not> passesFilter (healthGenerator [''Message'', ''Code''])
         (typeDecl ''health'' ''Severity'' [] (Basic (Typ String)))"
    by (simp add: passesFilter_def firstMaps_def health_defs example_defs pass_defs)
  have n: "map_of healthEnums ''HealthSeverity'' = None"
    by (simp add: healthEnums_def)
  from s c f health_second_pass 1 n show ?thesis by simp
qed

text \<open>C10, amended: a scalar alias of the scope that has no typed constant in the scope
  and that passes the ignore and allow tests of the pass (it is not ignored and, where the
  pass is restricted to an allow list, it is on the list) never makes \<^verbatim>\<open>generateOne\<close>
  return an error, and every pass that returns without an error has emitted for it
  \<^verbatim>\<open>export type Name = never\<close> with the empty companion array
  \<^verbatim>\<open>export const Names: Name[] = []\<close>, under the provenance line of the declaration.\<close>

theorem scalar_alias_without_constants:
  "wellFormed (pkg g) \<Longrightarrow> Lookup (pkg g) name = Some obj \<Longrightarrow>
   oKind obj = TypeName \<Longrightarrow> oType obj = Some (Named named (Basic b) targs) \<Longrightarrow>
   passesFilter g obj \<Longrightarrow> constantsOf (pkg g) (objName obj) = [] \<Longrightarrow>
   (\<forall>g2 m. \<exists>m'. generateOne g2 m obj = (Inr m', g2)) \<and>
   (\<forall>ts g1. generateAll g = (Inr ts, g1) \<longrightarrow>
      map_of (Enums_t ts) (objName obj) =
        Some (posLine obj @ ''export type '' @ objName obj @ '' = never'' @ [CHR 0x0A] @
              ''export const '' @ pluralName (objName obj) @ '': '' @ objName obj @
              ''[] = []'' @ [CHR 0x0A]))"
proof -
  assume wf: "wellFormed (pkg g)" and lk: "Lookup (pkg g) name = Some obj"
    and kind: "oKind obj = TypeName" and ty: "oType obj = Some (Named named (Basic b) targs)"
    and pf: "passesFilter g obj" and nc: "constantsOf (pkg g) (objName obj) = []"
  have never_fails: "\<forall>g2 m. \<exists>m'. generateOne g2 m obj = (Inr m', g2)"
    using generateOne_scalar[OF kind ty] by blast
  have emitted: "map_of (Enums_t ts) (objName obj) =
        Some (posLine obj @ ''export type '' @ objName obj @ '' = never'' @ [CHR 0x0A] @
              ''export const '' @ pluralName (objName obj) @ '': '' @ objName obj @
              ''[] = []'' @ [CHR 0x0A])"
    if a: "generateAll g = (Inr ts, g1)" for ts g1
  proof -
    obtain rn gn where n: "generateNames g (firstMaps g) (Names (pkg g)) = (rn, gn)"
      by (cases "generateNames g (firstMaps g) (Names (pkg g))")
    from a n obtain m where m: "rn = Inr m" and e: "Enums_t ts = enumCodeBlocks m"
      unfolding generateAll_firstMaps by (cases rn) auto
    note r = n[unfolded m]
    have uniq: "\<forall>n\<in>set (Names (pkg g)). \<forall>obj'. Lookup (pkg g) n = Some obj' \<longrightarrow>
           objName obj' = objName obj \<longrightarrow> obj' = obj"
      using wellFormed_unique[OF wf lk] by blast
    have i: "oName obj \<notin> set (IgnoredTypes (firstMaps g))"
      and al: "\<not> ((AllowedTypes (firstMaps g) \<noteq> [] \<or> onlyOptIn g) \<and>
                 oName obj \<notin> set (AllowedTypes (firstMaps g)))"
      using pf by (simp_all add: passesFilter_def)
    have reg: "map_of (Enums m) (objName obj) = Some obj"
      using generateNames_registers[OF r uniq Lookup_Names[OF lk] lk kind ty i al] .
    have "\<forall>n\<in>set (Names (pkg g)). \<forall>obj'. Lookup (pkg g) n = Some obj' \<longrightarrow>
            enumTypeOf obj' \<noteq> Some (objName obj)"
      using Lookup_constantsOf[OF nc] by blast
    from generateNames_consts[OF r this]
    have empty_consts: "enumConstsOf m (objName obj) = []"
      by (simp add: enumConstsOf_def firstMaps_def)
    show ?thesis
      unfolding e by (simp add: map_of_enumCodeBlocks reg empty_consts enumCodeBlock_text)
  qed
  from never_fails emitted show ?thesis by blast
qed

theorem scalar_alias_without_constants_witness:
  "wellFormed (pkg (healthGenerator [''Message'', ''Code'']))
   \<and> Lookup (pkg (healthGenerator [''Message'', ''Code''])) ''Code'' =
       Some (typeDecl ''health'' ''Code'' [] (Basic (Typ String)))
   \<and> passesFilter (healthGenerator [''Message'', ''Code''])
       (typeDecl ''health'' ''Code'' [] (Basic (Typ String)))
   \<and> constantsOf (pkg (healthGenerator [''Message'', ''Code''])) ''HealthCode'' = []
   \<and> generateAll (healthGenerator [''Message'', ''Code'']) =
       (Inr \<lparr>Types = healthTypes, Enums_t = healthEnums, Generics_t = []\<rparr>,
        healthGenerator [''Message'', ''Code''])
   \<and> map_of healthEnums ''HealthCode'' =
       Some (''// From health/types.go'' @ [CHR 0x0A] @
             ''export type HealthCode = never'' @ [CHR 0x0A] @
             ''export const HealthCodes: HealthCode[] = []'' @ [CHR 0x0A])"
proof -
  let ?g = "healthGenerator [''Message'', ''Code'']"
  let ?obj = "typeDecl ''health'' ''Code'' [] (Basic (Typ String))"
  have wf: "wellFormed (pkg ?g)"
    by (simp add: wellFormed_def health_defs example_defs)
  have lk: "Lookup (pkg ?g) ''Code'' = Some ?obj"
    by (simp add: Lookup_def healthGenerator_def generatorOf_def healthScope_def)
  have kind: "oKind ?obj = TypeName"
    and ty: "oType ?obj =
      Some (Named \<lparr>nName = ''Code'', nPkgName = ''health'', nString = ''example.com/health.Code'',
                   nTypeParams = []\<rparr> (Basic (Typ String)) [])"
    by (simp_all add: typeDecl_def namedRef_def)
  have pf: "passesFilter ?g ?obj"
    by (simp add: passesFilter_def firstMaps_def health_defs example_defs pass_defs)
  have on: "objName ?obj = ''HealthCode''"
    by (simp add: objName_def objNameOf_def typeDecl_def Title_def toUpper_def toLower_def)
  have nc: "constantsOf (pkg ?g) (objName ?obj) = []"
    unfolding on by (simp add: constantsOf_def enumTypeOf_def health_defs example_defs)
  from scalar_alias_without_constants[OF wf lk kind ty pf nc] health_second_pass
  have "map_of healthEnums (objName ?obj) =
        Some (posLine ?obj @ ''export type '' @ objName ?obj @ '' = never'' @ [CHR 0x0A] @
              ''export const '' @ pluralName (objName ?obj) @ '': '' @ objName ?obj @
              ''[] = []'' @ [CHR 0x0A])"
    by fastforce
  then have "map_of healthEnums ''HealthCode'' =
       Some (''// From health/types.go'' @ [CHR 0x0A] @
             ''export type HealthCode = never'' @ [CHR 0x0A] @
             ''export const HealthCodes: HealthCode[] = []'' @ [CHR 0x0A])"
    unfolding on by (simp add: posLine_def typeDecl_def pluralName_def HasSuffix_def)
  with wf lk pf nc[unfolded on] health_second_pass show ?thesis by simp
qed

end
